theory Spec2Isabelle
  imports Main
begin

section \<open>JavaScript values used by gmail-tester.js\<close>

text \<open>
  Strings are byte strings: a JavaScript string is represented by its UTF-8 encoding, which
  is what \<^verbatim>\<open>Buffer.from(s)\<close> produces and what \<^verbatim>\<open>toString("utf8")\<close> gives for bytes that
  are well-formed UTF-8.  An absent property (\<^verbatim>\<open>undefined\<close>) is \<open>None\<close>.

  Numbers are IEEE doubles.  The wait interval and the maximum wait are whole numbers of
  seconds, so every number of the source is a whole number, an infinity or \<^verbatim>\<open>NaN\<close>; a
  fractional interval is outside the model.  \<open>Num x\<close> is the double of value \<open>x\<close>.  The sum
  and the product of two whole doubles is the exact result rounded to the nearest double,
  a tie to the one with the even significand: a whole number up to \<open>2 ^ 53\<close> in absolute
  value is a double, a larger one is rounded to 53 significant bits, and a result of
  \<open>2 ^ 1024\<close> or more is an infinity.
\<close>

datatype jsnum = Num int | PosInf | NegInf | NaN

function bit_length :: "int \<Rightarrow> nat" where
  "bit_length n = (if n \<le> 0 then 0 else Suc (bit_length (n div 2)))"
  by pat_completeness auto
termination
  by (relation "measure nat") auto

declare bit_length.simps [simp del]

definition round_double :: "int \<Rightarrow> jsnum" where
  "round_double x =
     (if \<bar>x\<bar> \<le> 9007199254740992 then Num x
      else
        let q = 2 ^ (bit_length \<bar>x\<bar> - 53);
            m = x div q;
            r = x mod q;
            n = (if 2 * r < q then m else if q < 2 * r then m + 1
                 else if even m then m else m + 1)
        in if 2 ^ 1024 \<le> \<bar>n * q\<bar> then (if x < 0 then NegInf else PosInf)
           else Num (n * q))"

text \<open>
  The number that an option holds: \<^verbatim>\<open>undefined\<close> in arithmetic is \<^verbatim>\<open>NaN\<close>, and a whole
  number written by the caller is the double nearest to it.
\<close>

definition to_number :: "int option \<Rightarrow> jsnum" where
  "to_number v = (case v of None \<Rightarrow> NaN | Some i \<Rightarrow> round_double i)"

text \<open>\<^verbatim>\<open>a + b\<close>, \<^verbatim>\<open>a * b\<close> and \<^verbatim>\<open>a >= b\<close> on these numbers.\<close>

fun js_add :: "jsnum \<Rightarrow> jsnum \<Rightarrow> jsnum" where
  "js_add (Num a) (Num b) = round_double (a + b)"
| "js_add NaN _ = NaN"
| "js_add _ NaN = NaN"
| "js_add PosInf NegInf = NaN"
| "js_add NegInf PosInf = NaN"
| "js_add PosInf _ = PosInf"
| "js_add _ PosInf = PosInf"
| "js_add NegInf _ = NegInf"
| "js_add _ NegInf = NegInf"

fun js_mul :: "jsnum \<Rightarrow> jsnum \<Rightarrow> jsnum" where
  "js_mul (Num a) (Num b) = round_double (a * b)"
| "js_mul NaN _ = NaN"
| "js_mul _ NaN = NaN"
| "js_mul (Num a) PosInf = (if a = 0 then NaN else if 0 < a then PosInf else NegInf)"
| "js_mul (Num a) NegInf = (if a = 0 then NaN else if 0 < a then NegInf else PosInf)"
| "js_mul PosInf (Num b) = (if b = 0 then NaN else if 0 < b then PosInf else NegInf)"
| "js_mul NegInf (Num b) = (if b = 0 then NaN else if 0 < b then NegInf else PosInf)"
| "js_mul PosInf PosInf = PosInf"
| "js_mul NegInf NegInf = PosInf"
| "js_mul PosInf NegInf = NegInf"
| "js_mul NegInf PosInf = NegInf"

fun js_ge :: "jsnum \<Rightarrow> jsnum \<Rightarrow> bool" where
  "js_ge (Num a) (Num b) = (b \<le> a)"
| "js_ge NaN _ = False"
| "js_ge _ NaN = False"
| "js_ge PosInf _ = True"
| "js_ge _ NegInf = True"
| "js_ge _ _ = False"

text \<open>Truthiness of an optional string (\<^verbatim>\<open>if (to)\<close>): absent and empty are both falsy.\<close>

definition truthy :: "string option \<Rightarrow> bool" where
  "truthy v = (case v of None \<Rightarrow> False | Some s \<Rightarrow> s \<noteq> [])"

definition flag :: "bool option \<Rightarrow> bool" where
  "flag v = (case v of None \<Rightarrow> False | Some b \<Rightarrow> b)"

subsection \<open>Number and template rendering\<close>

definition digit_char :: "nat \<Rightarrow> char" where
  "digit_char n = ''0123456789'' ! n"

function show_nat :: "nat \<Rightarrow> string" where
  "show_nat n = (if n < 10 then [digit_char n] else show_nat (n div 10) @ [digit_char (n mod 10)])"
  by pat_completeness auto
termination
  by (relation "measure id") auto

declare show_nat.simps [simp del]

definition show_int :: "int \<Rightarrow> string" where
  "show_int i = (if i < 0 then CHR ''-'' # show_nat (nat (- i)) else show_nat (nat i))"

text \<open>\<^verbatim>\<open>${x}\<close> in a template literal, for an optional string and an optional number.\<close>

definition tpl_str :: "string option \<Rightarrow> string" where
  "tpl_str v = (case v of None \<Rightarrow> ''undefined'' | Some s \<Rightarrow> s)"

definition tpl_num :: "int option \<Rightarrow> string" where
  "tpl_num v = (case v of None \<Rightarrow> ''undefined'' | Some i \<Rightarrow> show_int i)"

subsection \<open>\<^verbatim>\<open>Array.prototype.join\<close> and \<^verbatim>\<open>String.prototype.trim\<close>\<close>

fun js_join :: "string \<Rightarrow> string list \<Rightarrow> string" where
  "js_join sep [] = []"
| "js_join sep [l] = l"
| "js_join sep (l # ls) = l @ sep @ js_join sep ls"

text \<open>
  The white space of \<^verbatim>\<open>trim\<close> that is a single byte in UTF-8: TAB, LF, VT, FF, CR and SPACE.
  The other white-space code points are multi-byte sequences; \<open>init_query\<close> only trims strings
  that begin with an ASCII letter and end with an ASCII character followed by one space.
\<close>

definition is_space :: "char \<Rightarrow> bool" where
  "is_space c = (c = CHR '' '' \<or> c = CHR 0x09 \<or> c = CHR 0x0A \<or> c = CHR 0x0B
                 \<or> c = CHR 0x0C \<or> c = CHR 0x0D)"

definition js_trim :: "string \<Rightarrow> string" where
  "js_trim s = rev (dropWhile is_space (rev (dropWhile is_space s)))"

section \<open>Filter options and the search query\<close>

text \<open>
  The options object.  \<open>o_before\<close> and \<open>o_after\<close> are \<^verbatim>\<open>Date\<close> objects, given by their
  time value in milliseconds since the epoch (a \<^verbatim>\<open>Date\<close> object is always truthy).
\<close>

record options =
  o_to :: "string option"
  o_from :: "string option"
  o_subject :: "string option"
  o_before :: "int option"
  o_after :: "int option"
  o_wait_time_sec :: "int option"
  o_max_wait_time_sec :: "int option"
  o_include_body :: "bool option"
  o_include_attachments :: "bool option"
  o_label :: "string option"

text \<open>The empty object \<^verbatim>\<open>{}\<close>.\<close>

definition no_options :: options where
  "no_options = \<lparr> o_to = None, o_from = None, o_subject = None, o_before = None,
     o_after = None, o_wait_time_sec = None, o_max_wait_time_sec = None,
     o_include_body = None, o_include_attachments = None, o_label = None \<rparr>"

text \<open>
  \<^verbatim>\<open>Math.round(new Date(d).getTime() / 1000)\<close>: \<^verbatim>\<open>Math.round\<close> rounds to the nearest
  integer, a half towards plus infinity.
\<close>

definition epoch_sec :: "int \<Rightarrow> int" where
  "epoch_sec ms = (ms + 500) div 1000"

text \<open>\<^verbatim>\<open>_init_query\<close> (an Isabelle name cannot start with an underscore).\<close>

definition init_query :: "options \<Rightarrow> string" where
  "init_query opts =
    (let query = '''';
         query = (if truthy (o_to opts)
                  then query @ ''to:\"'' @ the (o_to opts) @ ''\" '' else query);
         query = (if truthy (o_from opts)
                  then query @ ''from:\"'' @ the (o_from opts) @ ''\" '' else query);
         query = (if truthy (o_subject opts)
                  then query @ ''subject:('' @ the (o_subject opts) @ '') '' else query);
         query = (case o_after opts of None \<Rightarrow> query
                  | Some d \<Rightarrow> query @ ''after:'' @ show_int (epoch_sec d) @ '' '');
         query = (case o_before opts of None \<Rightarrow> query
                  | Some d \<Rightarrow> query @ ''before:'' @ show_int (epoch_sec d) @ '' '')
     in js_trim query)"

section \<open>Errors\<close>

text \<open>
  A thrown value: \<^verbatim>\<open>new Error(msg)\<close> of the source, a \<^verbatim>\<open>TypeError\<close> of the JavaScript
  runtime, or a rejection coming from a collaborator (\<^verbatim>\<open>./gmail\<close>, \<^verbatim>\<open>googleapis\<close>,
  \<^verbatim>\<open>./token-store\<close>).  An operation returns \<open>Inl\<close> of the thrown value or \<open>Inr\<close> of its
  result.
\<close>

datatype error = Error string | TypeError string | Rejected string

section \<open>Base64 as \<^verbatim>\<open>Buffer\<close> does it\<close>

definition b64_alphabet :: string where
  "b64_alphabet = ''ABCDEFGHIJKLMNOPQRSTUVWXYZabcdefghijklmnopqrstuvwxyz0123456789+/''"

definition b64_char :: "nat \<Rightarrow> char" where
  "b64_char n = b64_alphabet ! n"

text \<open>\<^verbatim>\<open>buf.toString("base64")\<close>: three bytes give four characters, the rest is padded.\<close>

fun base64_encode :: "string \<Rightarrow> string" where
  "base64_encode [] = []"
| "base64_encode [a] =
     (let x = (of_char a :: nat)
      in [b64_char (x div 4), b64_char ((x mod 4) * 16), CHR ''='', CHR ''=''])"
| "base64_encode [a, b] =
     (let x = (of_char a :: nat); y = (of_char b :: nat)
      in [b64_char (x div 4), b64_char ((x mod 4) * 16 + y div 16),
          b64_char ((y mod 16) * 4), CHR ''=''])"
| "base64_encode (a # b # c # bs) =
     (let x = (of_char a :: nat); y = (of_char b :: nat); z = (of_char c :: nat)
      in [b64_char (x div 4), b64_char ((x mod 4) * 16 + y div 16),
          b64_char ((y mod 16) * 4 + z div 64), b64_char (z mod 64)] @ base64_encode bs)"

fun index_of :: "char \<Rightarrow> string \<Rightarrow> nat option" where
  "index_of c [] = None"
| "index_of c (x # xs) = (if c = x then Some 0 else map_option Suc (index_of c xs))"

text \<open>
  The decoder of \<^verbatim>\<open>Buffer.from(s, "base64")\<close> accepts the standard and the URL-safe
  alphabet, skips every other character and stops at the first \<^verbatim>\<open>=\<close>.
\<close>

definition unbase64 :: "char \<Rightarrow> nat option" where
  "unbase64 c = (if c = CHR ''-'' then Some 62 else if c = CHR ''_'' then Some 63
                 else index_of c b64_alphabet)"

definition b64_sextets :: "string \<Rightarrow> nat list" where
  "b64_sextets s = List.map_filter unbase64 (takeWhile (\<lambda>c. c \<noteq> CHR ''='') s)"

fun sextets_to_bytes :: "nat list \<Rightarrow> string" where
  "sextets_to_bytes (a # b # c # d # r) =
     [char_of (a * 4 + b div 16), char_of ((b mod 16) * 16 + c div 4),
      char_of ((c mod 4) * 64 + d)] @ sextets_to_bytes r"
| "sextets_to_bytes [a, b, c] =
     [char_of (a * 4 + b div 16), char_of ((b mod 16) * 16 + c div 4)]"
| "sextets_to_bytes [a, b] = [char_of (a * 4 + b div 16)]"
| "sextets_to_bytes _ = []"

definition base64_decode :: "string \<Rightarrow> string" where
  "base64_decode s = sextets_to_bytes (b64_sextets s)"

text \<open>
  \<^verbatim>\<open>buf.toString("utf8")\<close>.  A well-formed UTF-8 sequence is one to four bytes long: the first
  byte announces the length, the second byte has a range that depends on the first, and the
  third and fourth are continuation bytes.  Bytes that are well-formed are kept.  Of bytes
  that are not, the longest run that still begins a well-formed sequence, or else the one
  offending byte, becomes U+FFFD (the bytes EF BF BD), and decoding goes on behind it.
\<close>

definition utf8_lead :: "nat \<Rightarrow> nat" where
  "utf8_lead x = (if x < 0x80 then 1 else if 0xC2 \<le> x \<and> x \<le> 0xDF then 2
                  else if 0xE0 \<le> x \<and> x \<le> 0xEF then 3
                  else if 0xF0 \<le> x \<and> x \<le> 0xF4 then 4 else 0)"

definition utf8_second :: "nat \<Rightarrow> nat \<Rightarrow> bool" where
  "utf8_second x y = (if x = 0xE0 then 0xA0 \<le> y \<and> y \<le> 0xBF
                      else if x = 0xED then 0x80 \<le> y \<and> y \<le> 0x9F
                      else if x = 0xF0 then 0x90 \<le> y \<and> y \<le> 0xBF
                      else if x = 0xF4 then 0x80 \<le> y \<and> y \<le> 0x8F
                      else 0x80 \<le> y \<and> y \<le> 0xBF)"

definition utf8_cont :: "nat \<Rightarrow> bool" where
  "utf8_cont y = (0x80 \<le> y \<and> y \<le> 0xBF)"

text \<open>How many bytes at the head of the input begin a well-formed sequence.\<close>

fun utf8_matched :: "string \<Rightarrow> nat" where
  "utf8_matched [] = 0"
| "utf8_matched (a # s) =
     (let n = utf8_lead (of_char a)
      in if n \<le> 1 then n
         else case s of
           [] \<Rightarrow> 1
         | b # s1 \<Rightarrow>
             if \<not> utf8_second (of_char a) (of_char b) then 1
             else if n = 2 then 2
             else case s1 of
               [] \<Rightarrow> 2
             | c # s2 \<Rightarrow>
                 if \<not> utf8_cont (of_char c) then 2
                 else if n = 3 then 3
                 else case s2 of
                   [] \<Rightarrow> 3
                 | d # _ \<Rightarrow> if utf8_cont (of_char d) then 4 else 3)"

definition utf8_complete :: "string \<Rightarrow> bool" where
  "utf8_complete s = (s \<noteq> [] \<and> utf8_matched s \<noteq> 0
                      \<and> utf8_matched s = utf8_lead (of_char (hd s)))"

function utf8_to_string :: "string \<Rightarrow> string" where
  "utf8_to_string s =
     (if s = [] then []
      else if utf8_complete s
      then take (utf8_matched s) s @ utf8_to_string (drop (utf8_matched s) s)
      else [CHR 0xEF, CHR 0xBF, CHR 0xBD] @ utf8_to_string (drop (max 1 (utf8_matched s)) s))"
  by pat_completeness auto
termination
  by (relation "measure length") (auto simp: utf8_complete_def)

declare utf8_to_string.simps [simp del]

text \<open>
  \<^verbatim>\<open>Buffer.from(data, "base64").toString("utf8")\<close>; \<^verbatim>\<open>Buffer.from(undefined, ...)\<close> throws
  a \<^verbatim>\<open>TypeError\<close>.  Its message is the one of \<^verbatim>\<open>ERR_INVALID_ARG_TYPE\<close> in current
  releases of Node; the wording has changed between releases, and nothing below depends on it.
\<close>

definition buffer_from_base64 :: "string option \<Rightarrow> error + string" where
  "buffer_from_base64 d =
     (case d of
        None \<Rightarrow> Inl (TypeError (''The first argument must be of type string or an instance of ''
                  @ ''Buffer, ArrayBuffer, or Array or an Array-like Object. Received undefined''))
      | Some s \<Rightarrow> Inr (utf8_to_string (base64_decode s)))"

section \<open>Raw messages and normalized emails\<close>

record header =
  h_name :: string
  h_value :: string

record msg_body =
  b_size :: nat
  b_data :: "string option"

datatype part = Part (p_mimeType: string) (p_body: msg_body) (p_parts: "part list option")

record payload =
  pl_headers :: "header list"
  pl_mimeType :: string
  pl_body :: msg_body
  pl_parts :: "part list option"

record gmail_email =
  g_payload :: payload
  g_internalDate :: int
  g_threadId :: "string option"

record email_body =
  eb_html :: string
  eb_text :: string

record attachment =
  a_filename :: string
  a_mimeType :: string
  a_data :: string

record email =
  e_from :: "string option"
  e_subject :: "string option"
  e_receiver :: "string option"
  e_date :: int
  e_threadId :: "string option"
  e_messageId :: "string option"
  e_body :: "email_body option"
  e_attachments :: "attachment list option"

text \<open>\<^verbatim>\<open>_get_header\<close>: the value of the first header of that name, \<^verbatim>\<open>undefined\<close> if none.\<close>

definition get_header :: "string \<Rightarrow> header list \<Rightarrow> string option" where
  "get_header name headers =
     (case find (\<lambda>h. h_name h = name) headers of None \<Rightarrow> None
      | Some found \<Rightarrow> Some (h_value found))"

text \<open>
  The \<^verbatim>\<open>while (parts.length)\<close> loop of \<^verbatim>\<open>_get_recent_email\<close>: the first part is taken off
  the queue, its nested parts are appended to the queue, and a \<^verbatim>\<open>text/plain\<close> or
  \<^verbatim>\<open>text/html\<close> part overwrites the text or the html found so far.
\<close>

function walk_parts :: "part list \<Rightarrow> email_body \<Rightarrow> error + email_body" where
  "walk_parts [] email_body = Inr email_body"
| "walk_parts (part # rest) email_body =
     (let parts = (case p_parts part of None \<Rightarrow> rest | Some ps \<Rightarrow> rest @ ps)
      in if p_mimeType part = ''text/plain''
         then (case buffer_from_base64 (b_data (p_body part)) of
                 Inl err \<Rightarrow> Inl err
               | Inr s \<Rightarrow> walk_parts parts (email_body\<lparr>eb_text := s\<rparr>))
         else if p_mimeType part = ''text/html''
         then (case buffer_from_base64 (b_data (p_body part)) of
                 Inl err \<Rightarrow> Inl err
               | Inr s \<Rightarrow> walk_parts parts (email_body\<lparr>eb_html := s\<rparr>))
         else walk_parts parts email_body)"
  by pat_completeness auto
termination
proof (relation "measure (\<lambda>(ps, _). size_list size ps)")
  have nested: "size_list size ps < Suc (size p)" if "p_parts p = Some ps" for p ps
    using that by (cases p) simp
  fix part :: part and rest :: "part list" and email_body :: email_body and parts s
  assume parts: "parts = (case p_parts part of None \<Rightarrow> rest | Some ps \<Rightarrow> rest @ ps)"
  have smaller: "size_list size parts < size_list size (part # rest)"
    using nested [of part] by (simp add: parts split: option.splits)
  show "((parts, email_body\<lparr>eb_text := s\<rparr>), part # rest, email_body)
          \<in> measure (\<lambda>(ps, _). size_list size ps)"
    using smaller by simp
  show "((parts, email_body\<lparr>eb_html := s\<rparr>), part # rest, email_body)
          \<in> measure (\<lambda>(ps, _). size_list size ps)"
    using smaller by simp
  show "((parts, email_body), part # rest, email_body)
          \<in> measure (\<lambda>(ps, _). size_list size ps)"
    using smaller by simp
qed simp

section \<open>Collaborators and the observable world\<close>

text \<open>
  The collaborators \<^verbatim>\<open>gmail.authorize\<close>, \<^verbatim>\<open>gmail.get_recent_email\<close>,
  \<^verbatim>\<open>gmail.get_email_attachments\<close> and \<^verbatim>\<open>users.messages.send\<close> are not in
  \<^verbatim>\<open>gmail-tester.js\<close>: they are parameters.  What the mailbox answers may change between two searches, so
  \<open>authorize\<close> and \<open>api_get_recent_email\<close> take the number of searches made before.
  A collaborator that fails gives the reason; the operation then throws \<open>Rejected reason\<close>.
\<close>

record mail_client =
  authorize :: "nat \<Rightarrow> string option"
  api_get_recent_email :: "nat \<Rightarrow> string \<Rightarrow> string option \<Rightarrow> string + gmail_email list"
  api_get_email_attachments :: "gmail_email \<Rightarrow> string + attachment list"
  api_send :: "string \<Rightarrow> string \<Rightarrow> string + string"

datatype console_line = Line string | Error_line string error

text \<open>
  A stored token, what \<^verbatim>\<open>oAuth2Client.refreshToken\<close> resolves to (\<open>None\<close> for
  \<^verbatim>\<open>undefined\<close>; of an object the source reads \<^verbatim>\<open>tokens\<close> and prints the JSON text), and
  the collaborators of \<^verbatim>\<open>refresh_access_token\<close>.
\<close>

record token =
  access_token :: "string option"
  refresh_token :: "string option"
  expiry_date :: "int option"

record refresh_response =
  r_tokens :: "token option"
  r_json :: string

record token_client =
  refreshToken :: "string + refresh_response option"
  tokenStore_get :: "string + token"
  tokenStore_store :: "token \<Rightarrow> string option"

text \<open>
  The effects: the number of searches made, the delays passed to \<^verbatim>\<open>setTimeout\<close> (in
  milliseconds), the lines written to the console, the messages sent (raw text, thread) and
  the tokens written to the token store.
\<close>

record world =
  calls :: nat
  sleeps :: "jsnum list"
  console :: "console_line list"
  sent :: "(string \<times> string) list"
  stored :: "token list"

definition console_log :: "string \<Rightarrow> world \<Rightarrow> world" where
  "console_log s w = w\<lparr>console := console w @ [Line s]\<rparr>"

definition console_log_error :: "string \<Rightarrow> error \<Rightarrow> world \<Rightarrow> world" where
  "console_log_error s err w = w\<lparr>console := console w @ [Error_line s err]\<rparr>"

definition sleep :: "jsnum \<Rightarrow> world \<Rightarrow> world" where
  "sleep ms w = w\<lparr>sleeps := sleeps w @ [ms]\<rparr>"

section \<open>\<^verbatim>\<open>_get_recent_email\<close>\<close>

text \<open>The body of \<^verbatim>\<open>if (options.include_body) { ... }\<close>, up to the assignment to \<^verbatim>\<open>email.body\<close>.\<close>

definition decode_body :: "gmail_email \<Rightarrow> error + email_body" where
  "decode_body gmail_email =
    (let email_body = \<lparr> eb_html = '''', eb_text = '''' \<rparr>;
         body = pl_body (g_payload gmail_email)
     in if b_size body \<noteq> 0
        then (if pl_mimeType (g_payload gmail_email) = ''text/html''
              then (case buffer_from_base64 (b_data body) of
                      Inl err \<Rightarrow> Inl err
                    | Inr s \<Rightarrow> Inr (email_body\<lparr>eb_html := s\<rparr>))
              else (case buffer_from_base64 (b_data body) of
                      Inl err \<Rightarrow> Inl err
                    | Inr s \<Rightarrow> Inr (email_body\<lparr>eb_text := s\<rparr>)))
        else (case pl_parts (g_payload gmail_email) of
                None \<Rightarrow> Inl (TypeError ''gmail_email.payload.parts is not iterable'')
              | Some parts \<Rightarrow> walk_parts parts email_body))"

text \<open>One round of the \<^verbatim>\<open>for (const gmail_email of gmail_emails)\<close> loop.\<close>

definition decode_email :: "mail_client \<Rightarrow> options \<Rightarrow> gmail_email \<Rightarrow> error + email" where
  "decode_email client opts gmail_email =
    (let headers = pl_headers (g_payload gmail_email);
         email = \<lparr> e_from = get_header ''From'' headers,
                   e_subject = get_header ''Subject'' headers,
                   e_receiver = get_header ''Delivered-To'' headers,
                   e_date = g_internalDate gmail_email,
                   e_threadId = g_threadId gmail_email,
                   e_messageId = (if truthy (get_header ''Message-ID'' headers)
                                  then get_header ''Message-ID'' headers
                                  else get_header ''Message-Id'' headers),
                   e_body = None, e_attachments = None \<rparr>
     in case (if flag (o_include_body opts)
              then (case decode_body gmail_email of
                      Inl err \<Rightarrow> Inl err
                    | Inr email_body \<Rightarrow> Inr (email\<lparr>e_body := Some email_body\<rparr>))
              else Inr email) of
          Inl err \<Rightarrow> Inl err
        | Inr email \<Rightarrow>
            if flag (o_include_attachments opts)
            then (case api_get_email_attachments client gmail_email of
                    Inl reason \<Rightarrow> Inl (Rejected reason)
                  | Inr atts \<Rightarrow> Inr (email\<lparr>e_attachments := Some atts\<rparr>))
            else Inr email)"

fun decode_all :: "mail_client \<Rightarrow> options \<Rightarrow> gmail_email list \<Rightarrow> email list \<Rightarrow> error + email list" where
  "decode_all client opts [] emails = Inr emails"
| "decode_all client opts (gmail_email # rest) emails =
     (case decode_email client opts gmail_email of
        Inl err \<Rightarrow> Inl err
      | Inr email \<Rightarrow> decode_all client opts rest (emails @ [email]))"

text \<open>What the \<open>n\<close>-th search (counting from 0) returns or throws.\<close>

definition fetch :: "mail_client \<Rightarrow> options \<Rightarrow> nat \<Rightarrow> error + email list" where
  "fetch client opts n =
    (let query = init_query opts
     in case authorize client n of
          Some reason \<Rightarrow> Inl (Rejected reason)
        | None \<Rightarrow>
            (case api_get_recent_email client n query (o_label opts) of
               Inl reason \<Rightarrow> Inl (Rejected reason)
             | Inr gmail_emails \<Rightarrow> decode_all client opts gmail_emails []))"

definition get_recent_email :: "mail_client \<Rightarrow> options \<Rightarrow> world \<Rightarrow> (error + email list) \<times> world" where
  "get_recent_email client opts w = (fetch client opts (calls w), w\<lparr>calls := Suc (calls w)\<rparr>)"

section \<open>\<^verbatim>\<open>__check_inbox\<close> and \<^verbatim>\<open>check_inbox\<close>\<close>

text \<open>
  How a call ends: it returns the emails found or \<^verbatim>\<open>null\<close>, it throws, or the process
  exits.  The loop may poll for ever, so it takes fuel, one unit per search: \<open>None\<close> is a
  call that has not ended after that many searches.
\<close>

datatype outcome = Returned "email list option" | Threw error | Exited nat

text \<open>The first line that \<^verbatim>\<open>__check_inbox\<close> logs.\<close>

definition checking_message :: "options \<Rightarrow> string" where
  "checking_message opts =
     ''[gmail] Checking for message from '' @ [CHR 0x27] @ tpl_str (o_from opts) @ [CHR 0x27]
     @ '', to: '' @ tpl_str (o_to opts) @ '', contains '' @ [CHR 0x27] @ tpl_str (o_subject opts)
     @ [CHR 0x27] @ '' in subject...''"

text \<open>The line logged after an empty search.\<close>

definition waiting_message :: "options \<Rightarrow> string" where
  "waiting_message opts =
     ''[gmail] Message not found. Waiting '' @ tpl_num (o_wait_time_sec opts) @ '' seconds...''"

fun check_inbox_loop :: "nat \<Rightarrow> mail_client \<Rightarrow> options \<Rightarrow> jsnum \<Rightarrow> world \<Rightarrow> outcome option \<times> world" where
  "check_inbox_loop 0 client opts done_waiting_time w = (None, w)"
| "check_inbox_loop (Suc fuel) client opts done_waiting_time w =
     (case get_recent_email client opts w of
        (Inl err, w1) \<Rightarrow> (Some (Threw err), w1)
      | (Inr emails, w1) \<Rightarrow>
          if length emails > 0
          then (Some (Returned (Some emails)), console_log ''[gmail] Found!'' w1)
          else
            let w2 = console_log (waiting_message opts) w1;
                done_waiting_time = js_add done_waiting_time (to_number (o_wait_time_sec opts))
            in if js_ge done_waiting_time (to_number (o_max_wait_time_sec opts))
               then (Some (Returned None),
                     console_log ''[gmail] Maximum waiting time exceeded!'' w2)
               else check_inbox_loop fuel client opts done_waiting_time
                      (sleep (js_mul (to_number (o_wait_time_sec opts)) (Num 1000)) w2))"

text \<open>\<^verbatim>\<open>__check_inbox\<close>: the loop inside \<^verbatim>\<open>try\<close>, and the \<^verbatim>\<open>catch\<close> that logs and rethrows.\<close>

definition check_inbox_inner :: "mail_client \<Rightarrow> options \<Rightarrow> nat \<Rightarrow> world \<Rightarrow> outcome option \<times> world" where
  "check_inbox_inner client opts fuel w =
    (let w0 = console_log (checking_message opts) w
     in case check_inbox_loop fuel client opts (Num 0) w0 of
          (Some (Threw err), w1) \<Rightarrow> (Some (Threw err), console_log_error ''[gmail] Error:'' err w1)
        | (r, w1) \<Rightarrow> (r, w1))"

text \<open>The default value of the parameter \<^verbatim>\<open>options\<close> of \<^verbatim>\<open>check_inbox\<close>.\<close>

definition default_options :: options where
  "default_options = \<lparr> o_to = None, o_from = None, o_subject = None, o_before = None,
     o_after = None, o_wait_time_sec = Some 30, o_max_wait_time_sec = Some 30,
     o_include_body = Some False, o_include_attachments = None, o_label = Some ''INBOX'' \<rparr>"

text \<open>
  The third argument of \<^verbatim>\<open>check_inbox\<close>: left out (or \<^verbatim>\<open>undefined\<close>), a value that is
  not an object, or an options object.
\<close>

datatype options_arg = Omitted | Not_object | Obj options

definition check_inbox :: "mail_client \<Rightarrow> options_arg \<Rightarrow> nat \<Rightarrow> world \<Rightarrow> outcome option \<times> world" where
  "check_inbox client arg fuel w =
    (case arg of
       Omitted \<Rightarrow> check_inbox_inner client default_options fuel w
     | Not_object \<Rightarrow>
         (Some (Exited 1), console_log
            ''[gmail-tester] This functionality is obsolete! Please pass all params of check_inbox() in options object.'' w)
     | Obj opts \<Rightarrow> check_inbox_inner client opts fuel w)"

section \<open>\<^verbatim>\<open>get_messages\<close>\<close>

text \<open>
  The \<^verbatim>\<open>catch\<close> logs and falls off the end of the function: the call returns
  \<^verbatim>\<open>undefined\<close>, here \<open>Returned None\<close>.
\<close>

definition get_messages :: "mail_client \<Rightarrow> options \<Rightarrow> world \<Rightarrow> outcome \<times> world" where
  "get_messages client opts w =
    (case get_recent_email client opts w of
       (Inl err, w1) \<Rightarrow> (Returned None, console_log_error ''[gmail] Error:'' err w1)
     | (Inr emails, w1) \<Rightarrow> (Returned (Some emails), w1))"

section \<open>\<^verbatim>\<open>reply_to_email\<close>\<close>

text \<open>\<^verbatim>\<open>/^Re:/i.test(s)\<close>.\<close>

definition starts_with_re :: "string \<Rightarrow> bool" where
  "starts_with_re s =
     (case s of
        a # b # c # _ \<Rightarrow> (a = CHR ''R'' \<or> a = CHR ''r'') \<and> (b = CHR ''E'' \<or> b = CHR ''e'')
                          \<and> c = CHR '':''
      | _ \<Rightarrow> False)"

text \<open>The header lines of the reply, from \<^verbatim>\<open>messageLines = [...]\<close> to the two \<^verbatim>\<open>push\<close>es.\<close>

definition reply_headers :: "string \<Rightarrow> string \<Rightarrow> string \<Rightarrow> string list" where
  "reply_headers originalFrom originalSubject originalMessageId =
    (let replySubject = (if \<not> starts_with_re originalSubject
                         then ''Re: '' @ originalSubject else originalSubject);
         messageLines = [''From: me'', ''To: '' @ originalFrom, ''Subject: '' @ replySubject]
     in if originalMessageId \<noteq> []
        then messageLines @ [''In-Reply-To: '' @ originalMessageId,
                             ''References: '' @ originalMessageId]
        else messageLines)"

definition reply_message :: "string \<Rightarrow> string \<Rightarrow> string \<Rightarrow> string \<Rightarrow> string" where
  "reply_message originalFrom originalSubject originalMessageId replyContent =
     js_join [CHR 0x0A] (reply_headers originalFrom originalSubject originalMessageId
                         @ ['''', replyContent])"

text \<open>
  \<^verbatim>\<open>Buffer.from(m).toString("base64").replace(/\+/g, "-").replace(/\//g, "_").replace(/=+$/, "")\<close>
\<close>

definition replace_char :: "char \<Rightarrow> char \<Rightarrow> string \<Rightarrow> string" where
  "replace_char a b s = map (\<lambda>c. if c = a then b else c) s"

definition strip_padding :: "string \<Rightarrow> string" where
  "strip_padding s = rev (dropWhile (\<lambda>c. c = CHR ''='') (rev s))"

definition encode_message :: "string \<Rightarrow> string" where
  "encode_message replyMessage =
     strip_padding (replace_char CHR ''/'' CHR ''_'' (replace_char CHR ''+'' CHR ''-''
       (base64_encode replyMessage)))"

definition reply_to_email :: "mail_client \<Rightarrow> string \<Rightarrow> options \<Rightarrow> world \<Rightarrow> (error + string) \<times> world" where
  "reply_to_email client replyContent opts w =
    (case get_recent_email client opts w of
       (Inl err, w1) \<Rightarrow> (Inl err, w1)
     | (Inr emails, w1) \<Rightarrow>
        (case emails of
           [] \<Rightarrow> (Inl (Error ''No email found matching the provided criteria.''), w1)
         | originalEmail # _ \<Rightarrow>
            let originalFrom = e_from originalEmail;
                originalSubject = e_subject originalEmail;
                threadId = e_threadId originalEmail;
                originalMessageId = (if truthy (e_messageId originalEmail)
                                     then the (e_messageId originalEmail) else '''')
            in if \<not> truthy originalFrom \<or> \<not> truthy originalSubject \<or> \<not> truthy threadId
               then (Inl (Error ''Missing required information from the original email.''), w1)
               else
                 let w2 = (if originalMessageId \<noteq> []
                           then console_log (''[gmail-tester] Adding threading headers with Message-ID: ''
                                  @ originalMessageId)
                                 (console_log (''[gmail-tester] Found original Message-ID: ''
                                    @ originalMessageId) w1)
                           else console_log
                                  ''[gmail-tester] Skipping threading headers due to missing Message-ID''
                                 (console_log
                                    ''[gmail-tester] Warning: No Message-ID found in the original email''
                                    w1));
                     replyMessage = reply_message (the originalFrom) (the originalSubject)
                                      originalMessageId replyContent;
                     encodedMessage = encode_message replyMessage
                 in case authorize client (calls w2) of
                      Some reason \<Rightarrow> (Inl (Rejected reason), w2)
                    | None \<Rightarrow>
                       (case api_send client encodedMessage (the threadId) of
                          Inl reason \<Rightarrow> (Inl (Rejected reason), w2)
                        | Inr response_data \<Rightarrow>
                            (Inr response_data,
                             w2\<lparr>sent := sent w2 @ [(encodedMessage, the threadId)]\<rparr>))))"

section \<open>\<^verbatim>\<open>refresh_access_token\<close>\<close>

definition refresh_access_token :: "mail_client \<Rightarrow> token_client \<Rightarrow> world \<Rightarrow> (error + unit) \<times> world" where
  "refresh_access_token client store w =
    (case authorize client (calls w) of
       Some reason \<Rightarrow> (Inl (Rejected reason), w)
     | None \<Rightarrow>
        (case refreshToken store of
           Inl reason \<Rightarrow> (Inl (Rejected reason), w)
         | Inr refresh_token_result \<Rightarrow>
            (case (case refresh_token_result of None \<Rightarrow> None | Some r \<Rightarrow> r_tokens r) of
               Some tokens \<Rightarrow>
                (case tokenStore_get store of
                   Inl reason \<Rightarrow> (Inl (Rejected reason), w)
                 | Inr new_token \<Rightarrow>
                    let new_token = (if truthy (access_token tokens)
                                     then new_token\<lparr>access_token := access_token tokens\<rparr>
                                     else new_token);
                        new_token = (if truthy (refresh_token tokens)
                                     then new_token\<lparr>refresh_token := refresh_token tokens\<rparr>
                                     else new_token);
                        new_token = (if expiry_date tokens \<noteq> None \<and> expiry_date tokens \<noteq> Some 0
                                     then new_token\<lparr>expiry_date := expiry_date tokens\<rparr>
                                     else new_token)
                    in case tokenStore_store store new_token of
                         Some reason \<Rightarrow> (Inl (Rejected reason), w)
                       | None \<Rightarrow> (Inr (), w\<lparr>stored := stored w @ [new_token]\<rparr>))
             | None \<Rightarrow>
                (Inl (Error (''Refresh access token failed! Respose: ''
                        @ (case refresh_token_result of None \<Rightarrow> ''undefined''
                           | Some r \<Rightarrow> r_json r))), w))))"

section \<open>The multipart walk, in parts\<close>





section \<open>The query as the specification words it\<close>

text \<open>
  QueryBuilder, rules 1 to 5: one clause for each field that is set, in the order
  to, from, subject, after, before; the clauses are joined by single spaces.
\<close>

definition query_clauses :: "options \<Rightarrow> string list" where
  "query_clauses opts =
     (case o_to opts of None \<Rightarrow> [] | Some t \<Rightarrow> [''to:\"'' @ t @ ''\"''])
     @ (case o_from opts of None \<Rightarrow> [] | Some f \<Rightarrow> [''from:\"'' @ f @ ''\"''])
     @ (case o_subject opts of None \<Rightarrow> [] | Some s \<Rightarrow> [''subject:('' @ s @ '')''])
     @ (case o_after opts of None \<Rightarrow> [] | Some d \<Rightarrow> [''after:'' @ show_int (epoch_sec d)])
     @ (case o_before opts of None \<Rightarrow> [] | Some d \<Rightarrow> [''before:'' @ show_int (epoch_sec d)])"

definition QueryBuilder_build :: "options \<Rightarrow> string" where
  "QueryBuilder_build opts = js_join '' '' (query_clauses opts)"

text \<open>An empty string counts as unset: the options with every falsy string field removed.\<close>

definition nonempty :: "string option \<Rightarrow> string option" where
  "nonempty v = (if truthy v then v else None)"

definition effective_filter :: "options \<Rightarrow> options" where
  "effective_filter opts = opts\<lparr> o_to := nonempty (o_to opts), o_from := nonempty (o_from opts),
     o_subject := nonempty (o_subject opts) \<rparr>"

text \<open>A clause is not empty and neither begins nor ends with white space.\<close>

definition clause_ok :: "string \<Rightarrow> bool" where
  "clause_ok c = (c \<noteq> [] \<and> \<not> is_space (hd c) \<and> \<not> is_space (last c))"

section \<open>The multipart walk as the specification words it\<close>






text \<open>Bytes that are well-formed UTF-8 from the first to the last.\<close>

function valid_utf8 :: "string \<Rightarrow> bool" where
  "valid_utf8 s =
     (if s = [] then True
      else if utf8_complete s then valid_utf8 (drop (utf8_matched s) s) else False)"
  by pat_completeness auto
termination
  by (relation "measure length") (auto simp: utf8_complete_def)

declare valid_utf8.simps [simp del]



section \<open>The poller as the specification documents it\<close>

text \<open>
  The algorithm of the Poller in the specification: search; return a batch that is not
  empty; return \<^verbatim>\<open>null\<close> if the elapsed time has reached the maximum; otherwise sleep and
  only then add the interval to the elapsed time.
\<close>

fun Poller_documented :: "nat \<Rightarrow> mail_client \<Rightarrow> options \<Rightarrow> jsnum \<Rightarrow> world \<Rightarrow> outcome option \<times> world" where
  "Poller_documented 0 client opts elapsed w = (None, w)"
| "Poller_documented (Suc fuel) client opts elapsed w =
     (case get_recent_email client opts w of
        (Inl err, w1) \<Rightarrow> (Some (Threw err), w1)
      | (Inr results, w1) \<Rightarrow>
          if results \<noteq> [] then (Some (Returned (Some results)), w1)
          else if js_ge elapsed (to_number (o_max_wait_time_sec opts))
          then (Some (Returned None), w1)
          else Poller_documented fuel client opts
                 (js_add elapsed (to_number (o_wait_time_sec opts)))
                 (sleep (js_mul (to_number (o_wait_time_sec opts)) (Num 1000)) w1))"

section \<open>Decoding a reply as the specification words it\<close>




section \<open>The email of a raw message\<close>

text \<open>
  What an email decoded under given options must be: the header fields, date and thread of
  the raw message, a body exactly if \<open>include_body\<close> is set and attachments exactly if
  \<open>include_attachments\<close> is set.
\<close>

definition flags_respected :: "options \<Rightarrow> email \<Rightarrow> bool" where
  "flags_respected opts e =
     ((e_body e \<noteq> None) = flag (o_include_body opts)
      \<and> (e_attachments e \<noteq> None) = flag (o_include_attachments opts))"

definition headers_of_message :: "gmail_email \<Rightarrow> email \<Rightarrow> bool" where
  "headers_of_message g e =
     (e_from e = get_header ''From'' (pl_headers (g_payload g))
      \<and> e_subject e = get_header ''Subject'' (pl_headers (g_payload g))
      \<and> e_receiver e = get_header ''Delivered-To'' (pl_headers (g_payload g))
      \<and> e_date e = g_internalDate g
      \<and> e_threadId e = g_threadId g
      \<and> e_messageId e = (if truthy (get_header ''Message-ID'' (pl_headers (g_payload g)))
                          then get_header ''Message-ID'' (pl_headers (g_payload g))
                          else get_header ''Message-Id'' (pl_headers (g_payload g))))"

section \<open>Test doubles\<close>

text \<open>
  A mail client that authorizes, answers the \<open>n\<close>-th search with \<open>results n\<close>, finds no
  attachment and sends; a world in which nothing has happened; a single-part message.
\<close>

definition mock_client :: "(nat \<Rightarrow> string + gmail_email list) \<Rightarrow> mail_client" where
  "mock_client results = \<lparr> authorize = (\<lambda>_. None),
     api_get_recent_email = (\<lambda>n _ _. results n),
     api_get_email_attachments = (\<lambda>_. Inr []),
     api_send = (\<lambda>_ _. Inr ''sent'') \<rparr>"

definition new_world :: world where
  "new_world = \<lparr> calls = 0, sleeps = [], console = [], sent = [], stored = [] \<rparr>"

definition plain_message :: gmail_email where
  "plain_message = \<lparr> g_payload = \<lparr> pl_headers =
         [\<lparr>h_name = ''From'', h_value = ''alice@example.com''\<rparr>,
          \<lparr>h_name = ''Subject'', h_value = ''Order Confirmation''\<rparr>,
          \<lparr>h_name = ''Message-Id'', h_value = ''<m1@example.com>''\<rparr>],
       pl_mimeType = ''text/plain'',
       pl_body = \<lparr>b_size = 5, b_data = Some ''aGVsbG8=''\<rparr>, pl_parts = None \<rparr>,
     g_internalDate = 1700000000000, g_threadId = Some ''thread-1'' \<rparr>"

definition plain_email :: email where
  "plain_email = \<lparr> e_from = Some ''alice@example.com'', e_subject = Some ''Order Confirmation'',
     e_receiver = None, e_date = 1700000000000, e_threadId = Some ''thread-1'',
     e_messageId = Some ''<m1@example.com>'', e_body = None, e_attachments = None \<rparr>"

text \<open>
  A \<^verbatim>\<open>multipart/mixed\<close> message holding a \<^verbatim>\<open>multipart/alternative\<close> with one
  \<^verbatim>\<open>text/plain\<close> and one \<^verbatim>\<open>text/html\<close> leaf, and an attachment.
\<close>

definition nested_parts_example :: "part list" where
  "nested_parts_example =
     [Part ''multipart/alternative'' \<lparr>b_size = 0, b_data = None\<rparr>
        (Some [Part ''text/plain'' \<lparr>b_size = 5, b_data = Some ''aGVsbG8=''\<rparr> None,
               Part ''text/html'' \<lparr>b_size = 9, b_data = Some ''PGI-aGk8L2I-''\<rparr> None]),
      Part ''application/pdf'' \<lparr>b_size = 0, b_data = None\<rparr> None]"

definition nested_message :: gmail_email where
  "nested_message = \<lparr> g_payload = \<lparr> pl_headers =
         [\<lparr>h_name = ''From'', h_value = ''alice@example.com''\<rparr>,
          \<lparr>h_name = ''Subject'', h_value = ''Order Confirmation''\<rparr>],
       pl_mimeType = ''multipart/mixed'',
       pl_body = \<lparr>b_size = 0, b_data = None\<rparr>, pl_parts = Some nested_parts_example \<rparr>,
     g_internalDate = 1700000000000, g_threadId = Some ''thread-2'' \<rparr>"

text \<open>A mailbox that answers every search with the same messages.\<close>

definition fixed_mailbox :: "gmail_email list \<Rightarrow> mail_client" where
  "fixed_mailbox messages = mock_client (\<lambda>_. Inr messages)"

text \<open>A message whose \<^verbatim>\<open>Subject\<close> header is present and empty.\<close>

definition empty_subject_message :: gmail_email where
  "empty_subject_message = \<lparr> g_payload = \<lparr> pl_headers =
         [\<lparr>h_name = ''From'', h_value = ''alice@example.com''\<rparr>,
          \<lparr>h_name = ''Subject'', h_value = ''''\<rparr>],
       pl_mimeType = ''text/plain'',
       pl_body = \<lparr>b_size = 5, b_data = Some ''aGVsbG8=''\<rparr>, pl_parts = None \<rparr>,
     g_internalDate = 1700000000000, g_threadId = Some ''thread-3'' \<rparr>"

text \<open>A single-part message whose body is empty: size 0, no data and no parts.\<close>

definition empty_body_message :: gmail_email where
  "empty_body_message = \<lparr> g_payload = \<lparr> pl_headers =
         [\<lparr>h_name = ''From'', h_value = ''alice@example.com''\<rparr>,
          \<lparr>h_name = ''Subject'', h_value = ''Ping''\<rparr>],
       pl_mimeType = ''text/plain'',
       pl_body = \<lparr>b_size = 0, b_data = None\<rparr>, pl_parts = None \<rparr>,
     g_internalDate = 1700000000000, g_threadId = Some ''thread-4'' \<rparr>"

section \<open>Verified properties\<close>

subsection \<open>Rendering and trimming\<close>

lemma digit_char_not_space: "n < 10 \<Longrightarrow> \<not> is_space (digit_char n)"
proof -
  assume "n < 10"
  then have "n \<in> set [0..<10]" by simp
  then have "n \<in> {0, 1, 2, 3, 4, 5, 6, 7, 8, 9}" by (simp add: upt_rec numeral_nat)
  then show ?thesis by (auto simp: digit_char_def is_space_def)
qed

lemma show_nat_nonempty: "show_nat n \<noteq> []"
  by (subst show_nat.simps) simp

lemma show_nat_last: "\<not> is_space (last (show_nat n))"
  by (subst show_nat.simps) (simp add: digit_char_not_space)

lemma show_int_nonempty: "show_int i \<noteq> []"
  by (simp add: show_int_def show_nat_nonempty)

lemma show_int_last: "\<not> is_space (last (show_int i))"
  by (simp add: show_int_def show_nat_nonempty show_nat_last)

lemma js_join_clause_ok:
  "cs \<noteq> [] \<Longrightarrow> list_all clause_ok cs \<Longrightarrow> clause_ok (js_join '' '' cs)"
  by (induction "'' ''" cs rule: js_join.induct) (auto simp: clause_ok_def)

lemma js_trim_clause_ok: "clause_ok s \<Longrightarrow> js_trim (s @ '' '') = s"
proof -
  assume ok: "clause_ok s"
  then obtain a r where s: "s = a # r" "\<not> is_space a"
    by (cases s) (auto simp: clause_ok_def)
  from ok have "\<not> is_space (last s)" "s \<noteq> []"
    by (auto simp: clause_ok_def)
  then have "dropWhile is_space (rev s) = rev s"
    by (simp add: dropWhile_eq_self_iff hd_rev)
  then show ?thesis
    using s by (simp add: js_trim_def is_space_def)
qed

lemma concat_spaced_join:
  "cs \<noteq> [] \<Longrightarrow> concat (map (\<lambda>c. c @ '' '') cs) = js_join '' '' cs @ '' ''"
  by (induction "'' ''" cs rule: js_join.induct) auto

lemma js_trim_spaced:
  assumes "list_all clause_ok cs"
  shows "js_trim (concat (map (\<lambda>c. c @ '' '') cs)) = js_join '' '' cs"
proof (cases "cs = []")
  case True
  then show ?thesis by (simp add: js_trim_def)
next
  case False
  with assms show ?thesis
    by (simp add: concat_spaced_join js_join_clause_ok js_trim_clause_ok)
qed

subsection \<open>The query\<close>

lemma query_clauses_ok: "list_all clause_ok (query_clauses opts)"
  by (simp add: query_clauses_def clause_ok_def is_space_def show_int_last [unfolded is_space_def]
      show_int_nonempty split: option.splits)

lemma init_query_spaced:
  "init_query opts =
     js_trim (concat (map (\<lambda>c. c @ '' '') (query_clauses (effective_filter opts))))"
  by (simp add: init_query_def query_clauses_def effective_filter_def nonempty_def truthy_def
      split: option.splits)

lemma init_query_join: "init_query opts = js_join '' '' (query_clauses (effective_filter opts))"
  by (simp add: init_query_spaced js_trim_spaced query_clauses_ok)

text \<open>
  Claim C2, as amended.  For every options record, \<open>init_query\<close> returns exactly the clauses of
  the fields that are set to a truthy value (a \<open>to\<close>, \<open>from\<close> or \<open>subject\<close> that is the empty
  string contributes nothing, like an absent one), in the order to, from, subject, after,
  before, formatted \<^verbatim>\<open>to:"<to>"\<close>, \<^verbatim>\<open>from:"<from>"\<close>, \<^verbatim>\<open>subject:(<subject>)\<close>,
  \<^verbatim>\<open>after:<epoch>\<close>, \<^verbatim>\<open>before:<epoch>\<close> with the epoch in rounded seconds, joined by single
  spaces; a query that is not empty neither begins nor ends with white space; the empty
  options give the empty query.
\<close>

theorem init_query_builds_clauses:
  "init_query opts = QueryBuilder_build (effective_filter opts)
   \<and> (init_query opts \<noteq> [] \<longrightarrow>
        \<not> is_space (hd (init_query opts)) \<and> \<not> is_space (last (init_query opts)))
   \<and> init_query no_options = []"
proof (intro conjI impI)
  show "init_query opts = QueryBuilder_build (effective_filter opts)"
    by (simp add: init_query_join QueryBuilder_build_def)
  show "init_query no_options = []"
    by (simp add: init_query_join query_clauses_def effective_filter_def nonempty_def truthy_def
        no_options_def)
  assume "init_query opts \<noteq> []"
  then have "query_clauses (effective_filter opts) \<noteq> []"
    by (auto simp: init_query_join)
  then have "clause_ok (init_query opts)"
    by (simp add: init_query_join js_join_clause_ok query_clauses_ok)
  then show "\<not> is_space (hd (init_query opts))" "\<not> is_space (last (init_query opts))"
    by (simp_all add: clause_ok_def)
qed

theorem init_query_builds_clauses_witness:
  "init_query (no_options\<lparr>o_to := Some ''a@b.c'', o_from := Some '''', o_subject := Some ''hi there'',
       o_after := Some 1500, o_before := Some 86400499\<rparr>)
     = ''to:\"a@b.c\" subject:(hi there) after:2 before:86400''
   \<and> \<not> is_space (hd (init_query (no_options\<lparr>o_to := Some ''a@b.c'', o_from := Some '''',
       o_subject := Some ''hi there'', o_after := Some 1500, o_before := Some 86400499\<rparr>)))
   \<and> \<not> is_space (last (init_query (no_options\<lparr>o_to := Some ''a@b.c'', o_from := Some '''',
       o_subject := Some ''hi there'', o_after := Some 1500, o_before := Some 86400499\<rparr>)))"
  using init_query_builds_clauses [of "no_options\<lparr>o_to := Some ''a@b.c'', o_from := Some '''',
       o_subject := Some ''hi there'', o_after := Some 1500, o_before := Some 86400499\<rparr>"]
  by (simp add: QueryBuilder_build_def query_clauses_def effective_filter_def nonempty_def
      truthy_def no_options_def epoch_sec_def show_int_def show_nat.simps digit_char_def
      is_space_def)

text \<open>
  The claim as it is worded fails for a field set to the empty string: the options
  \<^verbatim>\<open>{to: ""}\<close> have \<open>to\<close> set, the rules of the QueryBuilder give the clause \<^verbatim>\<open>to:""\<close>, and
  \<open>init_query\<close> returns the empty query.
\<close>

theorem init_query_empty_to_counterexample:
  "init_query (no_options\<lparr>o_to := Some ''''\<rparr>) = ''''
   \<and> QueryBuilder_build (no_options\<lparr>o_to := Some ''''\<rparr>) = ''to:\"\"''"
  by (simp add: init_query_def QueryBuilder_build_def query_clauses_def truthy_def no_options_def
      js_trim_def)

subsection \<open>The polling loop\<close>

lemma world_simps [simp]:
  "calls (console_log s w) = calls w" "sleeps (console_log s w) = sleeps w"
  "calls (console_log_error s e w) = calls w" "sleeps (console_log_error s e w) = sleeps w"
  "calls (sleep ms w) = calls w" "sleeps (sleep ms w) = sleeps w @ [ms]"
  "sent (console_log s w) = sent w" "sent (console_log_error s e w) = sent w"
  "sent (sleep ms w) = sent w"
  by (simp_all add: console_log_def console_log_error_def sleep_def)

lemma round_double_exact: "\<bar>x\<bar> \<le> 9007199254740992 \<Longrightarrow> round_double x = Num x"
  by (simp add: round_double_def)

lemma to_number_exact: "\<bar>i\<bar> \<le> 9007199254740992 \<Longrightarrow> to_number (Some i) = Num i"
  by (simp add: to_number_def round_double_exact)

lemma js_add_exact: "\<bar>a + b\<bar> \<le> 9007199254740992 \<Longrightarrow> js_add (Num a) (Num b) = Num (a + b)"
  by (simp add: round_double_exact)

lemma js_mul_exact: "\<bar>a * b\<bar> \<le> 9007199254740992 \<Longrightarrow> js_mul (Num a) (Num b) = Num (a * b)"
  by (simp add: round_double_exact)

lemma js_add_NaN: "js_add d NaN = NaN"
  by (cases d) simp_all

text \<open>
  The range in which the arithmetic of the loop is exact: the interval \<open>i\<close> is not negative,
  its milliseconds \<open>i * 1000\<close> and the maximum \<open>m\<close> are at most \<open>2 ^ 53\<close> in absolute value,
  and so is the elapsed time \<open>d\<close> with one more interval, from the start and (by \<open>m + i\<close>)
  after every comparison that did not stop the loop.
\<close>

lemma loop_step:
  assumes "o_wait_time_sec opts = Some i" "o_max_wait_time_sec opts = Some m"
    and "0 \<le> i" "i * 1000 \<le> 9007199254740992" "\<bar>m\<bar> \<le> 9007199254740992"
    and "0 \<le> d" "d + i \<le> 9007199254740992"
    and "fetch client opts (calls w) = Inr []"
  shows "check_inbox_loop (Suc f) client opts (Num d) w =
     (if m \<le> d + i
      then (Some (Returned None),
            console_log ''[gmail] Maximum waiting time exceeded!''
              (console_log (waiting_message opts) (w\<lparr>calls := Suc (calls w)\<rparr>)))
      else check_inbox_loop f client opts (Num (d + i))
             (sleep (Num (i * 1000))
                (console_log (waiting_message opts) (w\<lparr>calls := Suc (calls w)\<rparr>))))"
proof -
  have "\<bar>i\<bar> \<le> 9007199254740992" using assms(3,4) by simp
  then have wn: "to_number (Some i) = Num i" by (rule to_number_exact)
  have mn: "to_number (Some m) = Num m" using assms(5) by (rule to_number_exact)
  have "\<bar>d + i\<bar> \<le> 9007199254740992" using assms(3,6,7) by simp
  then have add: "js_add (Num d) (Num i) = Num (d + i)" by (rule js_add_exact)
  have "\<bar>i * 1000\<bar> \<le> 9007199254740992" using assms(3,4) by simp
  then have mul: "js_mul (Num i) (Num 1000) = Num (i * 1000)" by (rule js_mul_exact)
  show ?thesis
    using assms(8)
    by (simp only: check_inbox_loop.simps get_recent_email_def assms(1,2) wn mn add mul Let_def)
      simp
qed

lemma loop_found:
  assumes "o_wait_time_sec opts = Some i" "o_max_wait_time_sec opts = Some m"
    and "0 \<le> i" "i * 1000 \<le> 9007199254740992" "\<bar>m\<bar> \<le> 9007199254740992"
    and "0 \<le> d"
    and "\<forall>j<k. fetch client opts (calls w + j) = Inr []"
    and "\<forall>j<k. d + (int j + 1) * i < m"
    and "fetch client opts (calls w + k) = Inr es" "es \<noteq> []" "k < fuel"
  shows "\<exists>w'. check_inbox_loop fuel client opts (Num d) w = (Some (Returned (Some es)), w')
           \<and> sleeps w' = sleeps w @ replicate k (Num (i * 1000)) \<and> calls w' = calls w + k + 1"
  using assms(6-)
proof (induction k arbitrary: fuel d w)
  case 0
  then obtain f where "fuel = Suc f" by (cases fuel) auto
  with 0 show ?case by (simp add: get_recent_email_def)
next
  case (Suc k)
  then obtain f where f: "fuel = Suc f" "k < f" by (cases fuel) auto
  let ?w2 = "sleep (Num (i * 1000))
      (console_log (waiting_message opts) (w\<lparr>calls := Suc (calls w)\<rparr>))"
  from Suc.prems(2) have e0: "fetch client opts (calls w) = Inr []"
    by (metis add.right_neutral zero_less_Suc)
  from Suc.prems(3) have "d + (int 0 + 1) * i < m" by blast
  then have b0: "d + i < m" by simp
  then have "d + i \<le> 9007199254740992" using assms(5) by simp
  from loop_step [OF assms(1-5) Suc.prems(1) this e0, of f] b0
  have step: "check_inbox_loop fuel client opts (Num d) w
      = check_inbox_loop f client opts (Num (d + i)) ?w2"
    by (simp add: f)
  have c2: "calls ?w2 = Suc (calls w)" by simp
  have "0 \<le> d + i" using Suc.prems(1) assms(3) by simp
  moreover have "\<forall>j<k. fetch client opts (calls ?w2 + j) = Inr []"
    using Suc.prems(2) by (metis c2 Suc_less_eq add_Suc_shift)
  moreover have "\<forall>j<k. (d + i) + (int j + 1) * i < m"
  proof (intro allI impI)
    fix j assume "j < k"
    then have "d + (int (Suc j) + 1) * i < m" using Suc.prems(3) by (metis Suc_less_eq)
    then show "(d + i) + (int j + 1) * i < m" by (simp add: algebra_simps)
  qed
  moreover have "fetch client opts (calls ?w2 + k) = Inr es" using Suc.prems(4) by simp
  ultimately obtain w' where
    "check_inbox_loop f client opts (Num (d + i)) ?w2 = (Some (Returned (Some es)), w')"
    "sleeps w' = sleeps ?w2 @ replicate k (Num (i * 1000))" "calls w' = calls ?w2 + k + 1"
    using Suc.IH [of "d + i" ?w2 f] Suc.prems(5) f by blast
  then show ?case using step by (simp add: replicate_append_same)
qed

lemma loop_timed_out:
  assumes "o_wait_time_sec opts = Some i" "o_max_wait_time_sec opts = Some m"
    and "0 \<le> i" "i * 1000 \<le> 9007199254740992" "\<bar>m\<bar> \<le> 9007199254740992"
    and "m + i \<le> 9007199254740992"
    and "0 \<le> d" "d + i \<le> 9007199254740992"
    and "\<forall>j\<le>k. fetch client opts (calls w + j) = Inr []"
    and "\<forall>j<k. d + (int j + 1) * i < m"
    and "m \<le> d + (int k + 1) * i" "k < fuel"
  shows "\<exists>w'. check_inbox_loop fuel client opts (Num d) w = (Some (Returned None), w')
           \<and> sleeps w' = sleeps w @ replicate k (Num (i * 1000)) \<and> calls w' = calls w + k + 1"
  using assms(7-)
proof (induction k arbitrary: fuel d w)
  case 0
  then obtain f where f: "fuel = Suc f" by (cases fuel) auto
  from 0 have e0: "fetch client opts (calls w) = Inr []" by simp
  from 0 have "m \<le> d + i" by simp
  with loop_step [OF assms(1-5) "0.prems"(1,2) e0, of f] show ?case
    by (simp add: f)
next
  case (Suc k)
  then obtain f where f: "fuel = Suc f" "k < f" by (cases fuel) auto
  let ?w2 = "sleep (Num (i * 1000))
      (console_log (waiting_message opts) (w\<lparr>calls := Suc (calls w)\<rparr>))"
  from Suc.prems(3) have e0: "fetch client opts (calls w) = Inr []"
    by (metis add.right_neutral le0)
  from Suc.prems(4) have "d + (int 0 + 1) * i < m" by blast
  then have b0: "d + i < m" by simp
  from loop_step [OF assms(1-5) Suc.prems(1,2) e0, of f] b0
  have step: "check_inbox_loop fuel client opts (Num d) w
      = check_inbox_loop f client opts (Num (d + i)) ?w2"
    by (simp add: f)
  have c2: "calls ?w2 = Suc (calls w)" by simp
  have "0 \<le> d + i" using Suc.prems(1) assms(3) by simp
  moreover have "(d + i) + i \<le> 9007199254740992" using b0 assms(6) by simp
  moreover have "\<forall>j\<le>k. fetch client opts (calls ?w2 + j) = Inr []"
    using Suc.prems(3) by (metis c2 Suc_le_mono add_Suc_shift)
  moreover have "\<forall>j<k. (d + i) + (int j + 1) * i < m"
  proof (intro allI impI)
    fix j assume "j < k"
    then have "d + (int (Suc j) + 1) * i < m" using Suc.prems(4) by (metis Suc_less_eq)
    then show "(d + i) + (int j + 1) * i < m" by (simp add: algebra_simps)
  qed
  moreover have "m \<le> (d + i) + (int k + 1) * i"
    using Suc.prems(5) by (simp add: algebra_simps)
  ultimately obtain w' where
    "check_inbox_loop f client opts (Num (d + i)) ?w2 = (Some (Returned None), w')"
    "sleeps w' = sleeps ?w2 @ replicate k (Num (i * 1000))" "calls w' = calls ?w2 + k + 1"
    using Suc.IH [of "d + i" ?w2 f] f by blast
  then show ?case using step by (simp add: replicate_append_same)
qed

lemma loop_null_only_when_exhausted:
  assumes "o_wait_time_sec opts = Some i" "o_max_wait_time_sec opts = Some m"
    and "0 \<le> i" "i * 1000 \<le> 9007199254740992" "\<bar>m\<bar> \<le> 9007199254740992"
    and "m + i \<le> 9007199254740992"
    and "0 \<le> d" "d + i \<le> 9007199254740992"
    and "check_inbox_loop fuel client opts (Num d) w = (Some (Returned None), w')"
  shows "\<exists>k. calls w' = calls w + k + 1 \<and> (\<forall>j\<le>k. fetch client opts (calls w + j) = Inr [])
           \<and> (\<forall>j<k. d + (int j + 1) * i < m) \<and> m \<le> d + (int k + 1) * i
           \<and> sleeps w' = sleeps w @ replicate k (Num (i * 1000))"
  using assms(7-)
proof (induction fuel arbitrary: d w)
  case 0
  then show ?case by simp
next
  case (Suc f)
  let ?w2 = "sleep (Num (i * 1000))
      (console_log (waiting_message opts) (w\<lparr>calls := Suc (calls w)\<rparr>))"
  from Suc.prems(3) have e0: "fetch client opts (calls w) = Inr []"
    by (auto simp: get_recent_email_def split: sum.splits if_splits)
  note step = loop_step [OF assms(1-5) Suc.prems(1,2) e0, of f]
  show ?case
  proof (cases "m \<le> d + i")
    case True
    with Suc.prems(3) step have "calls w' = calls w + 0 + 1" "sleeps w' = sleeps w"
      by auto
    with True e0 show ?thesis by (intro exI [of _ 0]) simp
  next
    case False
    with Suc.prems(3) step
    have rec: "check_inbox_loop f client opts (Num (d + i)) ?w2 = (Some (Returned None), w')"
      by simp
    have "0 \<le> d + i" using Suc.prems(1) assms(3) by simp
    moreover have "(d + i) + i \<le> 9007199254740992" using False assms(6) by simp
    ultimately obtain k where k: "calls w' = calls ?w2 + k + 1"
      "\<forall>j\<le>k. fetch client opts (calls ?w2 + j) = Inr []"
      "\<forall>j<k. (d + i) + (int j + 1) * i < m" "m \<le> (d + i) + (int k + 1) * i"
      "sleeps w' = sleeps ?w2 @ replicate k (Num (i * 1000))"
      using Suc.IH [OF _ _ rec] by blast
    have "\<forall>j\<le>Suc k. fetch client opts (calls w + j) = Inr []"
    proof (intro allI impI)
      fix j assume "j \<le> Suc k"
      then show "fetch client opts (calls w + j) = Inr []"
        using e0 k(2) by (cases j) auto
    qed
    moreover have "\<forall>j<Suc k. d + (int j + 1) * i < m"
    proof (intro allI impI)
      fix j assume "j < Suc k"
      then show "d + (int j + 1) * i < m"
        using False k(3) by (cases j) (auto simp: algebra_simps)
    qed
    moreover have "m \<le> d + (int (Suc k) + 1) * i" using k(4) by (simp add: algebra_simps)
    moreover have "calls w' = calls w + Suc k + 1" using k(1) by simp
    moreover have "sleeps w' = sleeps w @ replicate (Suc k) (Num (i * 1000))"
      using k(5) by (simp add: replicate_append_same)
    ultimately show ?thesis by blast
  qed
qed

lemma loop_run:
  assumes "check_inbox_loop fuel client opts d w = (r, w')"
  shows "calls w \<le> calls w'
    \<and> (\<forall>n e. calls w \<le> n \<and> n < calls w' \<and> fetch client opts n = Inl e
           \<longrightarrow> r = Some (Threw e) \<and> calls w' = Suc n)
    \<and> (\<forall>n. calls w \<le> n \<and> Suc n < calls w' \<longrightarrow> fetch client opts n = Inr [])
    \<and> (\<forall>e. r = Some (Threw e) \<longrightarrow> calls w < calls w' \<and> fetch client opts (calls w' - 1) = Inl e)"
  using assms
proof (induction fuel arbitrary: d w)
  case 0
  then show ?case by auto
next
  case (Suc f)
  let ?d2 = "js_add d (to_number (o_wait_time_sec opts))"
  let ?w2 = "sleep (js_mul (to_number (o_wait_time_sec opts)) (Num 1000))
      (console_log (waiting_message opts) (w\<lparr>calls := Suc (calls w)\<rparr>))"
  have one: ?case if last: "calls w' = Suc (calls w)"
    and thrown: "\<And>e. fetch client opts (calls w) = Inl e \<Longrightarrow> r = Some (Threw e)"
    and rev_thrown: "\<And>e. r = Some (Threw e) \<Longrightarrow> fetch client opts (calls w) = Inl e"
  proof (intro conjI allI impI)
    show "calls w \<le> calls w'" using last by simp
  next
    fix n e assume "calls w \<le> n \<and> n < calls w' \<and> fetch client opts n = Inl e"
    then have "n = calls w" "fetch client opts n = Inl e" using last by simp_all
    then show "r = Some (Threw e)" "calls w' = Suc n" using thrown last by simp_all
  next
    fix n assume "calls w \<le> n \<and> Suc n < calls w'"
    then show "fetch client opts n = Inr []" using last by auto
  next
    fix e assume "r = Some (Threw e)"
    then show "calls w < calls w'" "fetch client opts (calls w' - 1) = Inl e"
      using rev_thrown last by simp_all
  qed
  show ?case
  proof (cases "fetch client opts (calls w)")
    case (Inl e)
    with Suc.prems have "r = Some (Threw e)" "calls w' = Suc (calls w)"
      by (auto simp: get_recent_email_def)
    with Inl show ?thesis by (intro one) simp_all
  next
    case (Inr es)
    show ?thesis
    proof (cases "es \<noteq> [] \<or> js_ge ?d2 (to_number (o_max_wait_time_sec opts))")
      case True
      with Suc.prems Inr have c: "calls w' = Suc (calls w)" and nt: "\<forall>e. r \<noteq> Some (Threw e)"
        by (auto simp: get_recent_email_def Let_def split: if_splits)
      show ?thesis
      proof (rule one)
        show "calls w' = Suc (calls w)" by (rule c)
      next
        fix e assume "fetch client opts (calls w) = Inl e"
        with Inr show "r = Some (Threw e)" by simp
      next
        fix e assume "r = Some (Threw e)"
        with nt show "fetch client opts (calls w) = Inl e" by blast
      qed
    next
      case False
      with Suc.prems Inr have rec: "check_inbox_loop f client opts ?d2 ?w2 = (r, w')"
        by (simp add: get_recent_email_def)
      have c2: "calls ?w2 = Suc (calls w)" by simp
      from Suc.IH [OF rec, unfolded c2] have ih: "Suc (calls w) \<le> calls w'"
        "\<And>n e. Suc (calls w) \<le> n \<Longrightarrow> n < calls w' \<Longrightarrow> fetch client opts n = Inl e
           \<Longrightarrow> r = Some (Threw e) \<and> calls w' = Suc n"
        "\<And>n. Suc (calls w) \<le> n \<Longrightarrow> Suc n < calls w' \<Longrightarrow> fetch client opts n = Inr []"
        "\<And>e. r = Some (Threw e) \<Longrightarrow> Suc (calls w) < calls w' \<and> fetch client opts (calls w' - 1) = Inl e"
        by blast+
      from False Inr have e0: "fetch client opts (calls w) = Inr []" by simp
      show ?thesis
      proof (intro conjI allI impI)
        show "calls w \<le> calls w'" using ih(1) by simp
      next
        fix n e assume a: "calls w \<le> n \<and> n < calls w' \<and> fetch client opts n = Inl e"
        with e0 have "n \<noteq> calls w" by auto
        with a have "Suc (calls w) \<le> n" by simp
        with a ih(2) show "r = Some (Threw e)" "calls w' = Suc n" by blast+
      next
        fix n assume a: "calls w \<le> n \<and> Suc n < calls w'"
        show "fetch client opts n = Inr []"
        proof (cases "n = calls w")
          case True
          then show ?thesis using e0 by simp
        next
          case False
          with a have "Suc (calls w) \<le> n" by simp
          with a ih(3) show ?thesis by blast
        qed
      next
        fix e assume "r = Some (Threw e)"
        with ih(4) have "Suc (calls w) < calls w'" "fetch client opts (calls w' - 1) = Inl e" by blast+
        then show "calls w < calls w'" "fetch client opts (calls w' - 1) = Inl e" by simp_all
      qed
    qed
  qed
qed

lemma check_inbox_inner_fst:
  "fst (check_inbox_inner client opts fuel w)
     = fst (check_inbox_loop fuel client opts (Num 0) (console_log (checking_message opts) w))"
  by (simp add: check_inbox_inner_def split: prod.splits option.splits outcome.splits)

lemma check_inbox_inner_calls:
  "calls (snd (check_inbox_inner client opts fuel w))
     = calls (snd (check_inbox_loop fuel client opts (Num 0) (console_log (checking_message opts) w)))"
  by (simp add: check_inbox_inner_def split: prod.splits option.splits outcome.splits)

lemma check_inbox_inner_sleeps:
  "sleeps (snd (check_inbox_inner client opts fuel w))
     = sleeps (snd (check_inbox_loop fuel client opts (Num 0) (console_log (checking_message opts) w)))"
  by (simp add: check_inbox_inner_def split: prod.splits option.splits outcome.splits)

text \<open>
  Claim C1, as amended.  Let the wait interval be \<open>i\<close> seconds and the maximum wait \<open>m\<close>
  seconds, whole numbers in the range where the doubles of the loop are exact: \<open>i\<close> is not
  negative, its milliseconds \<open>i * 1000\<close> and the maximum \<open>m\<close> are at most \<open>2 ^ 53\<close> in absolute
  value, and so is \<open>m + i\<close>, which bounds every elapsed time that the loop computes.  Every
  search that returns an empty batch adds \<open>i\<close> to the elapsed time; the poller then returns
  \<^verbatim>\<open>null\<close> if the elapsed time has reached \<open>m\<close>, and sleeps \<open>i\<close> seconds otherwise.  So a
  search that is empty \<open>k\<close> times and then finds a batch, with the elapsed times \<open>i, ..., k * i\<close>
  below \<open>m\<close>, returns that batch after exactly \<open>k\<close> sleeps; a search that stays empty returns
  \<^verbatim>\<open>null\<close> at the first elapsed time \<open>(k + 1) * i\<close> that reaches \<open>m\<close>, after exactly \<open>k\<close> sleeps;
  and \<^verbatim>\<open>null\<close> is returned in no other way.  The witness is the two scenarios of the
  specification: empty, empty, found with \<open>i = 1\<close>, \<open>m = 10\<close>; always empty with \<open>i = 5\<close>,
  \<open>m = 12\<close>; two sleeps each.
\<close>

theorem check_inbox_sleeps_until_found_or_exhausted:
  assumes wait: "o_wait_time_sec opts = Some i" and max: "o_max_wait_time_sec opts = Some m"
    and interval: "0 \<le> i" "i * 1000 \<le> 9007199254740992"
    and maximum: "\<bar>m\<bar> \<le> 9007199254740992" "m + i \<le> 9007199254740992"
  shows "((\<forall>j<k. fetch client opts (calls w + j) = Inr []) \<and> (\<forall>j<k. (int j + 1) * i < m)
            \<and> fetch client opts (calls w + k) = Inr es \<and> es \<noteq> [] \<and> k < fuel
          \<longrightarrow> fst (check_inbox client (Obj opts) fuel w) = Some (Returned (Some es))
              \<and> sleeps (snd (check_inbox client (Obj opts) fuel w))
                  = sleeps w @ replicate k (Num (i * 1000)))
       \<and> ((\<forall>j\<le>k. fetch client opts (calls w + j) = Inr []) \<and> (\<forall>j<k. (int j + 1) * i < m)
            \<and> m \<le> (int k + 1) * i \<and> k < fuel
          \<longrightarrow> fst (check_inbox client (Obj opts) fuel w) = Some (Returned None)
              \<and> sleeps (snd (check_inbox client (Obj opts) fuel w))
                  = sleeps w @ replicate k (Num (i * 1000)))
       \<and> (fst (check_inbox client (Obj opts) fuel w) = Some (Returned None)
          \<longrightarrow> (\<exists>k. (\<forall>j\<le>k. fetch client opts (calls w + j) = Inr [])
                  \<and> (\<forall>j<k. (int j + 1) * i < m) \<and> m \<le> (int k + 1) * i
                  \<and> sleeps (snd (check_inbox client (Obj opts) fuel w))
                      = sleeps w @ replicate k (Num (i * 1000))))"
proof (intro conjI impI)
  let ?w0 = "console_log (checking_message opts) w"
  have eq: "fst (check_inbox client (Obj opts) fuel w) = fst (check_inbox_loop fuel client opts (Num 0) ?w0)"
    "sleeps (snd (check_inbox client (Obj opts) fuel w))
       = sleeps (snd (check_inbox_loop fuel client opts (Num 0) ?w0))"
    by (simp_all add: check_inbox_def check_inbox_inner_fst check_inbox_inner_sleeps)
  {
    assume a: "(\<forall>j<k. fetch client opts (calls w + j) = Inr []) \<and> (\<forall>j<k. (int j + 1) * i < m)
            \<and> fetch client opts (calls w + k) = Inr es \<and> es \<noteq> [] \<and> k < fuel"
    then have "\<exists>w'. check_inbox_loop fuel client opts (Num 0) ?w0 = (Some (Returned (Some es)), w')
           \<and> sleeps w' = sleeps ?w0 @ replicate k (Num (i * 1000)) \<and> calls w' = calls ?w0 + k + 1"
      by (intro loop_found [OF wait max interval maximum(1)]) simp_all
    then show "fst (check_inbox client (Obj opts) fuel w) = Some (Returned (Some es))"
      "sleeps (snd (check_inbox client (Obj opts) fuel w)) = sleeps w @ replicate k (Num (i * 1000))"
      by (auto simp: eq)
  }
  {
    assume a: "(\<forall>j\<le>k. fetch client opts (calls w + j) = Inr []) \<and> (\<forall>j<k. (int j + 1) * i < m)
            \<and> m \<le> (int k + 1) * i \<and> k < fuel"
    then have "\<exists>w'. check_inbox_loop fuel client opts (Num 0) ?w0 = (Some (Returned None), w')
           \<and> sleeps w' = sleeps ?w0 @ replicate k (Num (i * 1000)) \<and> calls w' = calls ?w0 + k + 1"
      using interval by (intro loop_timed_out [OF wait max interval maximum]) simp_all
    then show "fst (check_inbox client (Obj opts) fuel w) = Some (Returned None)"
      "sleeps (snd (check_inbox client (Obj opts) fuel w)) = sleeps w @ replicate k (Num (i * 1000))"
      by (auto simp: eq)
  }
  {
    assume "fst (check_inbox client (Obj opts) fuel w) = Some (Returned None)"
    then obtain w' where l: "check_inbox_loop fuel client opts (Num 0) ?w0 = (Some (Returned None), w')"
      by (metis eq(1) prod.collapse)
    have "(0::int) \<le> 0" "0 + i \<le> 9007199254740992" using interval by simp_all
    from loop_null_only_when_exhausted [OF wait max interval maximum this l]
    obtain k where "\<forall>j\<le>k. fetch client opts (calls ?w0 + j) = Inr []"
      "\<forall>j<k. 0 + (int j + 1) * i < m" "m \<le> 0 + (int k + 1) * i"
      "sleeps w' = sleeps ?w0 @ replicate k (Num (i * 1000))"
      by blast
    then show "\<exists>k. (\<forall>j\<le>k. fetch client opts (calls w + j) = Inr [])
                  \<and> (\<forall>j<k. (int j + 1) * i < m) \<and> m \<le> (int k + 1) * i
                  \<and> sleeps (snd (check_inbox client (Obj opts) fuel w))
                      = sleeps w @ replicate k (Num (i * 1000))"
      by (intro exI [of _ k]) (simp add: eq l)
  }
qed

theorem check_inbox_sleeps_until_found_or_exhausted_witness:
  "fst (check_inbox (mock_client (\<lambda>n. if n < 2 then Inr [] else Inr [plain_message]))
          (Obj (no_options\<lparr>o_wait_time_sec := Some 1, o_max_wait_time_sec := Some 10\<rparr>)) 3 new_world)
     = Some (Returned (Some [plain_email]))
   \<and> sleeps (snd (check_inbox (mock_client (\<lambda>n. if n < 2 then Inr [] else Inr [plain_message]))
          (Obj (no_options\<lparr>o_wait_time_sec := Some 1, o_max_wait_time_sec := Some 10\<rparr>)) 3 new_world))
     = [Num 1000, Num 1000]
   \<and> fst (check_inbox (mock_client (\<lambda>n. Inr []))
          (Obj (no_options\<lparr>o_wait_time_sec := Some 5, o_max_wait_time_sec := Some 12\<rparr>)) 3 new_world)
     = Some (Returned None)
   \<and> sleeps (snd (check_inbox (mock_client (\<lambda>n. Inr []))
          (Obj (no_options\<lparr>o_wait_time_sec := Some 5, o_max_wait_time_sec := Some 12\<rparr>)) 3 new_world))
     = [Num 5000, Num 5000]"
proof -
  let ?c1 = "mock_client (\<lambda>n. if n < 2 then Inr [] else Inr [plain_message])"
  let ?o1 = "no_options\<lparr>o_wait_time_sec := Some 1, o_max_wait_time_sec := Some 10\<rparr>"
  let ?c2 = "mock_client (\<lambda>n. Inr [])"
  let ?o2 = "no_options\<lparr>o_wait_time_sec := Some 5, o_max_wait_time_sec := Some 12\<rparr>"
  have empty1: "\<forall>j<2. fetch ?c1 ?o1 (calls new_world + j) = Inr []"
    by (simp add: fetch_def mock_client_def new_world_def)
  have found1: "fetch ?c1 ?o1 (calls new_world + 2) = Inr [plain_email]"
    by (simp add: fetch_def mock_client_def decode_email_def get_header_def plain_message_def
        plain_email_def truthy_def flag_def no_options_def new_world_def)
  have budget1: "\<forall>j<2. (int j + 1) * 1 < (10::int)"
    by auto
  have empty2: "\<forall>j\<le>2. fetch ?c2 ?o2 (calls new_world + j) = Inr []"
    by (simp add: fetch_def mock_client_def new_world_def)
  have budget2: "\<forall>j<2. (int j + 1) * 5 < (12::int)"
    by auto
  have range1: "(0::int) \<le> 1" "(1::int) * 1000 \<le> 9007199254740992"
    "\<bar>10::int\<bar> \<le> 9007199254740992" "(10::int) + 1 \<le> 9007199254740992"
    by simp_all
  have range2: "(0::int) \<le> 5" "(5::int) * 1000 \<le> 9007199254740992"
    "\<bar>12::int\<bar> \<le> 9007199254740992" "(12::int) + 5 \<le> 9007199254740992"
    by simp_all
  have first: "fst (check_inbox ?c1 (Obj ?o1) 3 new_world) = Some (Returned (Some [plain_email]))
      \<and> sleeps (snd (check_inbox ?c1 (Obj ?o1) 3 new_world))
          = sleeps new_world @ replicate 2 (Num (1 * 1000))"
    using check_inbox_sleeps_until_found_or_exhausted
      [of ?o1 1 10 2 ?c1 new_world "[plain_email]" 3, THEN conjunct1]
      empty1 found1 budget1 range1
    by simp
  have second: "fst (check_inbox ?c2 (Obj ?o2) 3 new_world) = Some (Returned None)
      \<and> sleeps (snd (check_inbox ?c2 (Obj ?o2) 3 new_world))
          = sleeps new_world @ replicate 2 (Num (5 * 1000))"
    using check_inbox_sleeps_until_found_or_exhausted
      [of ?o2 5 12 2 ?c2 new_world "[]" 3, THEN conjunct2, THEN conjunct1]
      empty2 budget2 range2
    by simp
  from first second show ?thesis
    by (simp add: new_world_def numeral_2_eq_2)
qed

text \<open>
  The claim as it is worded fails on the search that exhausts the budget.  With an always
  empty mailbox, an interval of 5 and a maximum of 12 seconds, the searches 0, 1 and 2 all
  return the empty batch, and \<open>check_inbox\<close> sleeps after the first two only: the third adds
  5 to the elapsed 10 seconds, compares 15 with 12 and returns \<^verbatim>\<open>null\<close> without sleeping.
  The algorithm documented for the Poller compares before it adds, and sleeps three times
  on the same input.
\<close>

theorem check_inbox_last_search_no_sleep_counterexample:
  "fetch (fixed_mailbox []) (no_options\<lparr>o_wait_time_sec := Some 5, o_max_wait_time_sec := Some 12\<rparr>) 0 = Inr []
   \<and> fetch (fixed_mailbox []) (no_options\<lparr>o_wait_time_sec := Some 5, o_max_wait_time_sec := Some 12\<rparr>) 1 = Inr []
   \<and> fetch (fixed_mailbox []) (no_options\<lparr>o_wait_time_sec := Some 5, o_max_wait_time_sec := Some 12\<rparr>) 2 = Inr []
   \<and> fst (check_inbox (fixed_mailbox [])
          (Obj (no_options\<lparr>o_wait_time_sec := Some 5, o_max_wait_time_sec := Some 12\<rparr>)) 4 new_world)
       = Some (Returned None)
   \<and> calls (snd (check_inbox (fixed_mailbox [])
          (Obj (no_options\<lparr>o_wait_time_sec := Some 5, o_max_wait_time_sec := Some 12\<rparr>)) 4 new_world))
       = 3
   \<and> sleeps (snd (check_inbox (fixed_mailbox [])
          (Obj (no_options\<lparr>o_wait_time_sec := Some 5, o_max_wait_time_sec := Some 12\<rparr>)) 4 new_world))
       = [Num 5000, Num 5000]
   \<and> fst (Poller_documented 4 (fixed_mailbox [])
          (no_options\<lparr>o_wait_time_sec := Some 5, o_max_wait_time_sec := Some 12\<rparr>) (Num 0) new_world)
       = Some (Returned None)
   \<and> sleeps (snd (Poller_documented 4 (fixed_mailbox [])
          (no_options\<lparr>o_wait_time_sec := Some 5, o_max_wait_time_sec := Some 12\<rparr>) (Num 0) new_world))
       = [Num 5000, Num 5000, Num 5000]"
  by (simp add: check_inbox_def check_inbox_inner_def get_recent_email_def fetch_def
      fixed_mailbox_def mock_client_def new_world_def no_options_def to_number_def
      round_double_exact eval_nat_numeral)

text \<open>
  Outside that range the sums and the milliseconds are rounded.  With an interval of
  \<open>2 ^ 53 - 3\<close> and a maximum of \<open>3 * 2 ^ 53 - 8\<close> seconds the third sum \<open>3 * 2 ^ 53 - 9\<close> is
  no double; it is rounded up to the maximum, so the third empty search returns \<^verbatim>\<open>null\<close>
  although three intervals are less than the maximum, and each of the two sleeps lasts
  \<open>9007199254740988928\<close> milliseconds, the double nearest to \<open>(2 ^ 53 - 3) * 1000\<close>.
\<close>

lemma round_double_examples:
  "round_double 9007199254740993 = Num 9007199254740992"
  "round_double 9007199254740995 = Num 9007199254740996"
  "round_double 18014398509481978 = Num 18014398509481978"
  "round_double 27021597764222967 = Num 27021597764222968"
  "round_double 27021597764222968 = Num 27021597764222968"
  "round_double 9007199254740989000 = Num 9007199254740988928"
  by code_simp+

lemma loop_rounding_example:
  "fst (check_inbox (fixed_mailbox [])
          (Obj (no_options\<lparr>o_wait_time_sec := Some 9007199254740989,
                           o_max_wait_time_sec := Some 27021597764222968\<rparr>)) 4 new_world)
       = Some (Returned None)
   \<and> sleeps (snd (check_inbox (fixed_mailbox [])
          (Obj (no_options\<lparr>o_wait_time_sec := Some 9007199254740989,
                           o_max_wait_time_sec := Some 27021597764222968\<rparr>)) 4 new_world))
       = [Num 9007199254740988928, Num 9007199254740988928]
   \<and> (9007199254740989::int) * 3 < 27021597764222968"
  by (simp add: check_inbox_def check_inbox_inner_def get_recent_email_def fetch_def
      fixed_mailbox_def mock_client_def new_world_def no_options_def to_number_def
      round_double_exact round_double_examples eval_nat_numeral)

lemma loop_sleeps_count:
  "check_inbox_loop fuel client opts d w = (Some x, w')
     \<Longrightarrow> Suc (length (sleeps w')) = length (sleeps w) + (calls w' - calls w)"
proof (induction fuel arbitrary: d w)
  case 0
  then show ?case by simp
next
  case (Suc f)
  let ?d2 = "js_add d (to_number (o_wait_time_sec opts))"
  let ?w2 = "sleep (js_mul (to_number (o_wait_time_sec opts)) (Num 1000))
      (console_log (waiting_message opts) (w\<lparr>calls := Suc (calls w)\<rparr>))"
  show ?case
  proof (cases "fetch client opts (calls w) = Inr [] \<and> \<not> js_ge ?d2 (to_number (o_max_wait_time_sec opts))")
    case True
    with Suc.prems have rec: "check_inbox_loop f client opts ?d2 ?w2 = (Some x, w')"
      by (simp add: get_recent_email_def)
    have "calls ?w2 \<le> calls w'" using loop_run [OF rec] by blast
    then have "Suc (calls w) \<le> calls w'" by simp
    moreover have "Suc (length (sleeps w')) = length (sleeps ?w2) + (calls w' - calls ?w2)"
      by (rule Suc.IH [OF rec])
    ultimately show ?thesis by simp
  next
    case False
    with Suc.prems have "calls w' = Suc (calls w)" "sleeps w' = sleeps w"
      by (auto simp: get_recent_email_def Let_def split: sum.splits if_splits)
    then show ?thesis by simp
  qed
qed

lemma check_inbox_inner_run:
  "check_inbox_inner client opts fuel w = (r, w') \<Longrightarrow>
     \<exists>w1. check_inbox_loop fuel client opts (Num 0) (console_log (checking_message opts) w) = (r, w1)
       \<and> calls w' = calls w1 \<and> sleeps w' = sleeps w1"
  by (auto simp: check_inbox_inner_def split: prod.splits option.splits outcome.splits)

text \<open>
  Claim C4.  In every run of \<open>check_inbox\<close>, on an options object or on the default
  options, the searches made are those numbered from
  \<open>calls w\<close> up to \<open>calls w' - 1\<close>.  A search of the run that raises an error is the last
  search of the run, its error is what the call throws, unchanged, and the poller has slept
  once after each earlier search and not after this one.  Every search of the run that
  is followed by another search had returned the empty batch.
\<close>

theorem check_inbox_error_ends_run:
  assumes "check_inbox client arg fuel w = (r, w')"
    and "arg = Obj opts \<or> (arg = Omitted \<and> opts = default_options)"
  shows "(\<forall>n e. calls w \<le> n \<and> n < calls w' \<and> fetch client opts n = Inl e
            \<longrightarrow> r = Some (Threw e) \<and> calls w' = Suc n
                \<and> length (sleeps w') = length (sleeps w) + (n - calls w))
       \<and> (\<forall>n. calls w \<le> n \<and> Suc n < calls w' \<longrightarrow> fetch client opts n = Inr [])"
proof -
  let ?w0 = "console_log (checking_message opts) w"
  from assms have "check_inbox_inner client opts fuel w = (r, w')"
    by (auto simp: check_inbox_def)
  then obtain w1 where run: "check_inbox_loop fuel client opts (Num 0) ?w0 = (r, w1)"
    and same: "calls w' = calls w1" "sleeps w' = sleeps w1"
    using check_inbox_inner_run [of client opts fuel w r w'] by auto
  note inv = loop_run [OF run]
  show ?thesis
  proof (intro conjI allI impI)
    fix n e assume a: "calls w \<le> n \<and> n < calls w' \<and> fetch client opts n = Inl e"
    then have "calls ?w0 \<le> n \<and> n < calls w1 \<and> fetch client opts n = Inl e"
      by (simp add: same)
    with inv have thrown: "r = Some (Threw e)" "calls w1 = Suc n" by blast+
    then show "r = Some (Threw e)" "calls w' = Suc n" by (simp_all add: same)
    from loop_sleeps_count [of fuel client opts "Num 0" ?w0 "Threw e" w1] run thrown
    have "Suc (length (sleeps w1)) = length (sleeps ?w0) + (Suc n - calls ?w0)" by simp
    with a show "length (sleeps w') = length (sleeps w) + (n - calls w)"
      by (simp add: same Suc_diff_le)
  next
    fix n assume "calls w \<le> n \<and> Suc n < calls w'"
    then have "calls ?w0 \<le> n \<and> Suc n < calls w1" by (simp add: same)
    with inv show "fetch client opts n = Inr []" by blast
  qed
qed

theorem check_inbox_error_ends_run_witness:
  "fst (check_inbox (mock_client (\<lambda>n. if n < 2 then Inr [] else Inl ''invalid_grant''))
          (Obj (no_options\<lparr>o_wait_time_sec := Some 1, o_max_wait_time_sec := Some 10\<rparr>)) 5 new_world)
     = Some (Threw (Rejected ''invalid_grant''))
   \<and> calls (snd (check_inbox (mock_client (\<lambda>n. if n < 2 then Inr [] else Inl ''invalid_grant''))
          (Obj (no_options\<lparr>o_wait_time_sec := Some 1, o_max_wait_time_sec := Some 10\<rparr>)) 5 new_world))
     = 3
   \<and> length (sleeps (snd (check_inbox
          (mock_client (\<lambda>n. if n < 2 then Inr [] else Inl ''invalid_grant''))
          (Obj (no_options\<lparr>o_wait_time_sec := Some 1, o_max_wait_time_sec := Some 10\<rparr>)) 5 new_world)))
     = 2"
proof -
  let ?c = "mock_client (\<lambda>n. if n < 2 then Inr [] else Inl ''invalid_grant'')"
  let ?o = "no_options\<lparr>o_wait_time_sec := Some 1, o_max_wait_time_sec := Some 10\<rparr>"
  let ?run = "check_inbox ?c (Obj ?o) 5 new_world"
  have reached: "2 < calls (snd ?run)"
    by (simp add: check_inbox_def check_inbox_inner_def get_recent_email_def fetch_def
        mock_client_def new_world_def no_options_def to_number_def round_double_exact
        eval_nat_numeral)
  have failed: "fetch ?c ?o 2 = Inl (Rejected ''invalid_grant'')"
    by (simp add: fetch_def mock_client_def)
  have "calls new_world \<le> 2" "length (sleeps new_world) = 0" "calls new_world = 0"
    by (simp_all add: new_world_def)
  with check_inbox_error_ends_run [of ?c "Obj ?o" 5 new_world "fst ?run" "snd ?run" ?o,
      THEN conjunct1, rule_format, of 2 "Rejected ''invalid_grant''"] reached failed
  show ?thesis by simp
qed

subsection \<open>Failures\<close>

lemma loop_first_error:
  "fetch client opts (calls w) = Inl err \<Longrightarrow>
     check_inbox_loop (Suc fuel) client opts d w = (Some (Threw err), w\<lparr>calls := Suc (calls w)\<rparr>)"
  by (simp add: get_recent_email_def)

text \<open>
  Claim C3.  \<open>get_messages\<close> never throws: when the search or the decoding raises an error,
  it logs the error and returns \<^verbatim>\<open>undefined\<close>.  The same failure is thrown to the caller by
  \<open>check_inbox\<close> and by \<open>reply_to_email\<close>.  No other public operation suppresses a failure:
  \<open>check_inbox\<close> returns only if no search of the run failed, \<open>reply_to_email\<close> and
  \<open>refresh_access_token\<close> return only if none of their collaborators failed.
\<close>

theorem get_messages_suppresses_failure:
  "(\<forall>e. fst (get_messages client opts w) \<noteq> Threw e)
   \<and> (fetch client opts (calls w) = Inl err \<longrightarrow>
         fst (get_messages client opts w) = Returned None
       \<and> console (snd (get_messages client opts w)) = console w @ [Error_line ''[gmail] Error:'' err]
       \<and> (0 < fuel \<longrightarrow> fst (check_inbox client (Obj opts) fuel w) = Some (Threw err))
       \<and> fst (reply_to_email client replyContent opts w) = Inl err)
   \<and> (fst (check_inbox client (Obj opts) fuel w) = Some (Returned found) \<longrightarrow>
         (\<forall>n. calls w \<le> n \<and> n < calls (snd (check_inbox client (Obj opts) fuel w))
              \<longrightarrow> \<not> isl (fetch client opts n)))
   \<and> (fst (reply_to_email client replyContent opts w) = Inr response \<longrightarrow>
         \<not> isl (fetch client opts (calls w)) \<and> authorize client (Suc (calls w)) = None
       \<and> (\<exists>raw thread. api_send client raw thread = Inr response))
   \<and> (fst (refresh_access_token client store w) = Inr () \<longrightarrow>
         authorize client (calls w) = None \<and> \<not> isl (refreshToken store)
       \<and> \<not> isl (tokenStore_get store) \<and> (\<exists>t. tokenStore_store store t = None))"
proof (intro conjI allI impI)
  fix e show "fst (get_messages client opts w) \<noteq> Threw e"
    by (simp add: get_messages_def split: prod.splits sum.splits)
next
  assume f: "fetch client opts (calls w) = Inl err"
  show "fst (get_messages client opts w) = Returned None"
    using f by (simp add: get_messages_def get_recent_email_def)
  show "console (snd (get_messages client opts w)) = console w @ [Error_line ''[gmail] Error:'' err]"
    using f by (simp add: get_messages_def get_recent_email_def console_log_error_def)
  show "fst (reply_to_email client replyContent opts w) = Inl err"
    using f by (simp add: reply_to_email_def get_recent_email_def)
  assume "0 < fuel"
  then obtain n where "fuel = Suc n" by (cases fuel) auto
  then show "fst (check_inbox client (Obj opts) fuel w) = Some (Threw err)"
    using f loop_first_error [of client opts "console_log (checking_message opts) w" err n "Num 0"]
    by (simp add: check_inbox_def check_inbox_inner_fst)
next
  fix n
  assume ret: "fst (check_inbox client (Obj opts) fuel w) = Some (Returned found)"
    and n: "calls w \<le> n \<and> n < calls (snd (check_inbox client (Obj opts) fuel w))"
  obtain r w' where run: "check_inbox client (Obj opts) fuel w = (r, w')"
    by (cases "check_inbox client (Obj opts) fuel w")
  show "\<not> isl (fetch client opts n)"
  proof
    assume "isl (fetch client opts n)"
    then obtain e where "fetch client opts n = Inl e" by (cases "fetch client opts n") auto
    with check_inbox_inner_run [of client opts fuel w r w'] run n
      loop_run [of fuel client opts "Num 0" "console_log (checking_message opts) w" r]
    have "r = Some (Threw e)" by (auto simp: check_inbox_def)
    with ret run show False by simp
  qed
next
  assume ok: "fst (reply_to_email client replyContent opts w) = Inr response"
  then show "\<not> isl (fetch client opts (calls w))"
    by (auto simp: reply_to_email_def get_recent_email_def split: sum.splits)
  from ok show "authorize client (Suc (calls w)) = None"
    by (auto simp: reply_to_email_def get_recent_email_def Let_def
        split: sum.splits list.splits if_splits option.splits)
  from ok show "\<exists>raw thread. api_send client raw thread = Inr response"
    by (auto simp: reply_to_email_def get_recent_email_def Let_def
        split: sum.splits list.splits if_splits option.splits)
next
  assume ok: "fst (refresh_access_token client store w) = Inr ()"
  then show "authorize client (calls w) = None"
    by (auto simp: refresh_access_token_def split: option.splits)
  from ok show "\<not> isl (refreshToken store)"
    by (auto simp: refresh_access_token_def split: option.splits sum.splits)
  from ok show "\<not> isl (tokenStore_get store)"
    by (auto simp: refresh_access_token_def Let_def split: option.splits sum.splits)
  from ok show "\<exists>t. tokenStore_store store t = None"
    by (auto simp: refresh_access_token_def Let_def split: option.splits sum.splits)
qed

theorem get_messages_suppresses_failure_witness:
  "fst (get_messages (mock_client (\<lambda>n. Inl ''backend error'')) no_options new_world)
     = Returned None
   \<and> console (snd (get_messages (mock_client (\<lambda>n. Inl ''backend error'')) no_options
        new_world)) = [Error_line ''[gmail] Error:'' (Rejected ''backend error'')]
   \<and> fst (check_inbox (mock_client (\<lambda>n. Inl ''backend error'')) (Obj no_options) 1
        new_world) = Some (Threw (Rejected ''backend error''))
   \<and> fst (reply_to_email (mock_client (\<lambda>n. Inl ''backend error'')) ''Thanks'' no_options
        new_world) = Inl (Rejected ''backend error'')"
proof -
  let ?c = "mock_client (\<lambda>n. Inl ''backend error'')"
  have failed: "fetch ?c no_options (calls new_world) = Inl (Rejected ''backend error'')"
    by (simp add: fetch_def mock_client_def)
  have "console new_world = []" "(0::nat) < 1"
    by (simp_all add: new_world_def)
  with get_messages_suppresses_failure [of ?c no_options new_world "Rejected ''backend error''" 1
      "''Thanks''", THEN conjunct2, THEN conjunct1] failed
  show ?thesis by simp
qed

subsection \<open>The multipart walk\<close>
















lemma base64_decode_examples:
  "base64_decode ''aGVsbG8='' = ''hello''" "base64_decode ''PGI-aGk8L2I-'' = ''<b>hi</b>''"
  by code_simp+

lemma utf8_examples:
  "valid_utf8 ''hello''" "valid_utf8 ''<b>hi</b>''" "utf8_to_string ''hello'' = ''hello''"
  by code_simp+

text \<open>
  Bytes that are not well-formed UTF-8 are not returned as they are: the data \<^verbatim>\<open>Y2Fm6Q==\<close>
  holds the four bytes 63 61 66 E9, and the text decoded is \<^verbatim>\<open>caf\<close> followed by U+FFFD.
\<close>

lemma utf8_replacement_example:
  "buffer_from_base64 (Some ''Y2Fm6Q=='')
     = Inr [CHR ''c'', CHR ''a'', CHR ''f'', CHR 0xEF, CHR 0xBF, CHR 0xBD]"
  "\<not> valid_utf8 (base64_decode ''Y2Fm6Q=='')"
  by code_simp+



subsection \<open>Replies\<close>

lemma Rejected_not_Error: "map_sum Rejected id r \<noteq> Inl (Error msg)"
  by (cases r) simp_all

text \<open>
  Claim C6, as amended.  When the search succeeds, \<open>reply_to_email\<close> throws
  \<^verbatim>\<open>No email found matching the provided criteria.\<close> exactly when the search returns no
  email, and \<^verbatim>\<open>Missing required information from the original email.\<close> exactly when the
  first email has a \<open>from\<close>, \<open>subject\<close> or \<open>threadId\<close> that is absent or empty.  Otherwise the
  reply is handed to the send collaborator, whether or not the email has a message id, and
  the call ends as the authorization and the send end.
\<close>

theorem reply_to_email_validation:
  assumes "fetch client opts (calls w) = Inr emails"
  shows "(fst (reply_to_email client replyContent opts w)
            = Inl (Error ''No email found matching the provided criteria.'') \<longleftrightarrow> emails = [])
       \<and> (fst (reply_to_email client replyContent opts w)
            = Inl (Error ''Missing required information from the original email.'')
          \<longleftrightarrow> emails \<noteq> [] \<and> (\<not> truthy (e_from (hd emails)) \<or> \<not> truthy (e_subject (hd emails))
                \<or> \<not> truthy (e_threadId (hd emails))))
       \<and> (emails \<noteq> [] \<and> truthy (e_from (hd emails)) \<and> truthy (e_subject (hd emails))
            \<and> truthy (e_threadId (hd emails)) \<longrightarrow>
          fst (reply_to_email client replyContent opts w)
            = (case authorize client (Suc (calls w)) of
                 Some reason \<Rightarrow> Inl (Rejected reason)
               | None \<Rightarrow> map_sum Rejected id
                   (api_send client
                      (encode_message (reply_message (the (e_from (hd emails)))
                         (the (e_subject (hd emails)))
                         (if truthy (e_messageId (hd emails)) then the (e_messageId (hd emails))
                          else '''')
                         replyContent))
                      (the (e_threadId (hd emails))))))"
proof -
  have sent: "fst (reply_to_email client replyContent opts w)
            = (case authorize client (Suc (calls w)) of
                 Some reason \<Rightarrow> Inl (Rejected reason)
               | None \<Rightarrow> map_sum Rejected id
                   (api_send client
                      (encode_message (reply_message (the (e_from (hd emails)))
                         (the (e_subject (hd emails)))
                         (if truthy (e_messageId (hd emails)) then the (e_messageId (hd emails))
                          else '''')
                         replyContent))
                      (the (e_threadId (hd emails)))))"
    if "emails \<noteq> []" "truthy (e_from (hd emails))" "truthy (e_subject (hd emails))"
      "truthy (e_threadId (hd emails))"
    using that assms
    by (cases emails)
      (auto simp: reply_to_email_def get_recent_email_def Let_def split: option.splits sum.splits)
  have none: "fst (reply_to_email client replyContent opts w)
            = Inl (Error ''No email found matching the provided criteria.'')" if "emails = []"
    using that assms by (simp add: reply_to_email_def get_recent_email_def)
  have malformed: "fst (reply_to_email client replyContent opts w)
            = Inl (Error ''Missing required information from the original email.'')"
    if "emails \<noteq> []" "\<not> truthy (e_from (hd emails)) \<or> \<not> truthy (e_subject (hd emails))
                \<or> \<not> truthy (e_threadId (hd emails))"
    using that assms
    by (cases emails) (auto simp: reply_to_email_def get_recent_email_def Let_def)
  have sent_no_error: "fst (reply_to_email client replyContent opts w) \<noteq> Inl (Error msg)"
    if "emails \<noteq> []" "truthy (e_from (hd emails))" "truthy (e_subject (hd emails))"
      "truthy (e_threadId (hd emails))" for msg
    using sent [OF that] Rejected_not_Error by (auto split: option.splits)
  show ?thesis
  proof (intro conjI impI iffI)
    assume "fst (reply_to_email client replyContent opts w)
            = Inl (Error ''No email found matching the provided criteria.'')"
    then show "emails = []"
      using malformed sent_no_error by (cases "emails = []") auto
  next
    assume "emails = []" then show "fst (reply_to_email client replyContent opts w)
            = Inl (Error ''No email found matching the provided criteria.'')" by (rule none)
  next
    assume a: "fst (reply_to_email client replyContent opts w)
            = Inl (Error ''Missing required information from the original email.'')"
    then show "emails \<noteq> []" using none by auto
    from a show "\<not> truthy (e_from (hd emails)) \<or> \<not> truthy (e_subject (hd emails))
                \<or> \<not> truthy (e_threadId (hd emails))"
      using none sent_no_error by (cases "emails = []") auto
  next
    assume "emails \<noteq> [] \<and> (\<not> truthy (e_from (hd emails)) \<or> \<not> truthy (e_subject (hd emails))
                \<or> \<not> truthy (e_threadId (hd emails)))"
    then show "fst (reply_to_email client replyContent opts w)
            = Inl (Error ''Missing required information from the original email.'')"
      using malformed by blast
  next
    assume "emails \<noteq> [] \<and> truthy (e_from (hd emails)) \<and> truthy (e_subject (hd emails))
            \<and> truthy (e_threadId (hd emails))"
    then show "fst (reply_to_email client replyContent opts w)
            = (case authorize client (Suc (calls w)) of
                 Some reason \<Rightarrow> Inl (Rejected reason)
               | None \<Rightarrow> map_sum Rejected id
                   (api_send client
                      (encode_message (reply_message (the (e_from (hd emails)))
                         (the (e_subject (hd emails)))
                         (if truthy (e_messageId (hd emails)) then the (e_messageId (hd emails))
                          else '''')
                         replyContent))
                      (the (e_threadId (hd emails)))))"
      using sent by blast
  qed
qed
theorem reply_to_email_validation_witness:
  "fst (reply_to_email (fixed_mailbox []) ''Thanks'' no_options new_world)
     = Inl (Error ''No email found matching the provided criteria.'')
   \<and> fst (reply_to_email (fixed_mailbox [plain_message\<lparr>g_threadId := None\<rparr>]) ''Thanks'' no_options
          new_world)
     = Inl (Error ''Missing required information from the original email.'')
   \<and> fst (reply_to_email (fixed_mailbox [nested_message]) ''Thanks'' no_options new_world)
     = Inr ''sent''"
proof -
  have none: "fetch (fixed_mailbox []) no_options (calls new_world) = Inr []"
    by (simp add: fetch_def fixed_mailbox_def mock_client_def)
  have no_thread: "fetch (fixed_mailbox [plain_message\<lparr>g_threadId := None\<rparr>]) no_options
      (calls new_world) = Inr [plain_email\<lparr>e_threadId := None\<rparr>]"
    by (simp add: fetch_def fixed_mailbox_def mock_client_def decode_email_def get_header_def
        plain_message_def plain_email_def truthy_def flag_def no_options_def)
  have no_id: "fetch (fixed_mailbox [nested_message]) no_options (calls new_world)
      = Inr [\<lparr> e_from = Some ''alice@example.com'', e_subject = Some ''Order Confirmation'',
               e_receiver = None, e_date = 1700000000000, e_threadId = Some ''thread-2'',
               e_messageId = None, e_body = None, e_attachments = None \<rparr>]"
    by (simp add: fetch_def fixed_mailbox_def mock_client_def decode_email_def get_header_def
        nested_message_def truthy_def flag_def no_options_def)
  show ?thesis
    using reply_to_email_validation [OF none, of "''Thanks''", THEN conjunct1]
      reply_to_email_validation [OF no_thread, of "''Thanks''", THEN conjunct2, THEN conjunct1]
      reply_to_email_validation [OF no_id, of "''Thanks''", THEN conjunct2, THEN conjunct2]
    by (simp add: truthy_def plain_email_def fixed_mailbox_def mock_client_def)
qed

text \<open>
  The claim as it is worded fails for a first email that has all three fields, one of them
  empty: a message with an empty \<^verbatim>\<open>Subject\<close> header lacks none of \<open>from\<close>, \<open>subject\<close>,
  \<open>threadId\<close>, and \<open>reply_to_email\<close> throws the error of a missing field.
\<close>

theorem reply_to_email_empty_subject_counterexample:
  "fetch (fixed_mailbox [empty_subject_message]) no_options 0
     = Inr [\<lparr> e_from = Some ''alice@example.com'', e_subject = Some '''', e_receiver = None,
              e_date = 1700000000000, e_threadId = Some ''thread-3'', e_messageId = None,
              e_body = None, e_attachments = None \<rparr>]
   \<and> fst (reply_to_email (fixed_mailbox [empty_subject_message]) ''Thanks'' no_options new_world)
     = Inl (Error ''Missing required information from the original email.'')"
  by (simp add: reply_to_email_def get_recent_email_def fetch_def fixed_mailbox_def
      mock_client_def decode_email_def get_header_def empty_subject_message_def truthy_def
      flag_def no_options_def new_world_def)

subsection \<open>Base64\<close>




















subsection \<open>Decoded emails\<close>

lemma decode_email_fields:
  "decode_email client opts g = Inr e \<Longrightarrow> headers_of_message g e \<and> flags_respected opts e"
  by (auto simp: decode_email_def headers_of_message_def flags_respected_def Let_def
      split: if_splits sum.splits)

lemma decode_all_fields:
  "decode_all client opts gs acc = Inr emails \<Longrightarrow>
     \<exists>new. emails = acc @ new
       \<and> list_all2 (\<lambda>g e. headers_of_message g e \<and> flags_respected opts e) gs new"
proof (induction gs arbitrary: acc)
  case Nil
  then show ?case by simp
next
  case (Cons g gs)
  from Cons.prems obtain e where e: "decode_email client opts g = Inr e"
    and rest: "decode_all client opts gs (acc @ [e]) = Inr emails"
    by (auto split: sum.splits)
  from Cons.IH [OF rest] obtain new where "emails = (acc @ [e]) @ new"
    "list_all2 (\<lambda>g e. headers_of_message g e \<and> flags_respected opts e) gs new"
    by blast
  with decode_email_fields [OF e] show ?case
    by (intro exI [of _ "e # new"]) simp
qed

lemma fetch_fields:
  assumes "fetch client opts n = Inr emails"
  shows "\<exists>gs. api_get_recent_email client n (init_query opts) (o_label opts) = Inr gs
           \<and> list_all2 (\<lambda>g e. headers_of_message g e \<and> flags_respected opts e) gs emails"
proof -
  from assms obtain gs where gs: "api_get_recent_email client n (init_query opts) (o_label opts) = Inr gs"
    and "decode_all client opts gs [] = Inr emails"
    by (auto simp: fetch_def split: option.splits sum.splits)
  with decode_all_fields [of client opts gs "[]" emails] show ?thesis by auto
qed

lemma loop_returns_fetched:
  "check_inbox_loop fuel client opts d w = (Some (Returned (Some emails)), w')
     \<Longrightarrow> \<exists>n. fetch client opts n = Inr emails"
proof (induction fuel arbitrary: d w)
  case 0
  then show ?case by simp
next
  case (Suc fuel)
  show ?case
  proof (cases "fetch client opts (calls w)")
    case (Inl err)
    with Suc.prems show ?thesis by (simp add: get_recent_email_def)
  next
    case (Inr found)
    show ?thesis
    proof (cases "found = []")
      case False
      with Suc.prems Inr have "found = emails" by (simp add: get_recent_email_def)
      with Inr show ?thesis by blast
    next
      case True
      with Suc.prems Inr show ?thesis
        by (auto simp: get_recent_email_def Let_def split: if_splits dest: Suc.IH)
    qed
  qed
qed

text \<open>
  Claim C8.  Every email that a search returns is decoded from one raw message of the
  answer, in order: its \<open>from\<close>, \<open>subject\<close>, \<open>receiver\<close>, \<open>date\<close>, \<open>threadId\<close> and \<open>messageId\<close> are
  those of the raw message whatever the flags, it has a body exactly if \<open>include_body\<close> is
  set, and attachments exactly if \<open>include_attachments\<close> is set.  This holds for the emails
  returned by \<open>get_messages\<close>, by \<open>check_inbox\<close> and by the lookup of \<open>reply_to_email\<close>.
\<close>

theorem emails_respect_flags:
  "(fetch client opts n = Inr emails \<longrightarrow>
      (\<exists>gs. api_get_recent_email client n (init_query opts) (o_label opts) = Inr gs
         \<and> list_all2 (\<lambda>g e. headers_of_message g e \<and> flags_respected opts e) gs emails))
   \<and> (fst (get_messages client opts w) = Returned (Some emails) \<longrightarrow>
        (\<forall>e\<in>set emails. flags_respected opts e))
   \<and> (fst (check_inbox client (Obj opts) fuel w) = Some (Returned (Some emails)) \<longrightarrow>
        (\<forall>e\<in>set emails. flags_respected opts e))
   \<and> (fst (get_recent_email client opts w) = Inr emails \<longrightarrow>
        (\<forall>e\<in>set emails. flags_respected opts e))"
proof -
  have all: "\<forall>e\<in>set emails. flags_respected opts e" if "fetch client opts k = Inr emails" for k
  proof -
    from fetch_fields [OF that] obtain gs where
      "list_all2 (\<lambda>g e. headers_of_message g e \<and> flags_respected opts e) gs emails"
      by blast
    then show ?thesis
      by (auto simp: list_all2_conv_all_nth in_set_conv_nth)
  qed
  show ?thesis
  proof (intro conjI impI)
    assume "fetch client opts n = Inr emails"
    then show "\<exists>gs. api_get_recent_email client n (init_query opts) (o_label opts) = Inr gs
         \<and> list_all2 (\<lambda>g e. headers_of_message g e \<and> flags_respected opts e) gs emails"
      by (rule fetch_fields)
  next
    assume "fst (get_messages client opts w) = Returned (Some emails)"
    then have "fetch client opts (calls w) = Inr emails"
      by (auto simp: get_messages_def get_recent_email_def split: sum.splits)
    then show "\<forall>e\<in>set emails. flags_respected opts e" by (rule all)
  next
    assume "fst (check_inbox client (Obj opts) fuel w) = Some (Returned (Some emails))"
    then obtain w' where "check_inbox_loop fuel client opts (Num 0)
        (console_log (checking_message opts) w) = (Some (Returned (Some emails)), w')"
      by (cases "check_inbox_loop fuel client opts (Num 0) (console_log (checking_message opts) w)")
        (simp add: check_inbox_def check_inbox_inner_fst)
    from loop_returns_fetched [OF this] show "\<forall>e\<in>set emails. flags_respected opts e"
      using all by blast
  next
    assume "fst (get_recent_email client opts w) = Inr emails"
    then have "fetch client opts (calls w) = Inr emails"
      by (simp add: get_recent_email_def)
    then show "\<forall>e\<in>set emails. flags_respected opts e" by (rule all)
  qed
qed

theorem emails_respect_flags_witness:
  "fst (get_messages (fixed_mailbox [plain_message]) (no_options\<lparr>o_include_body := Some True\<rparr>)
          new_world)
     = Returned (Some [plain_email\<lparr>e_body := Some \<lparr>eb_html = '''', eb_text = ''hello''\<rparr>\<rparr>])
   \<and> flags_respected (no_options\<lparr>o_include_body := Some True\<rparr>)
         (plain_email\<lparr>e_body := Some \<lparr>eb_html = '''', eb_text = ''hello''\<rparr>\<rparr>)
   \<and> e_attachments (plain_email\<lparr>e_body := Some \<lparr>eb_html = '''', eb_text = ''hello''\<rparr>\<rparr>) = None"
proof -
  let ?opts = "no_options\<lparr>o_include_body := Some True\<rparr>"
  let ?email = "plain_email\<lparr>e_body := Some \<lparr>eb_html = '''', eb_text = ''hello''\<rparr>\<rparr>"
  have got: "fst (get_messages (fixed_mailbox [plain_message]) ?opts new_world)
      = Returned (Some [?email])"
    by (simp add: get_messages_def get_recent_email_def fetch_def fixed_mailbox_def
        mock_client_def decode_email_def decode_body_def buffer_from_base64_def get_header_def
        plain_message_def plain_email_def truthy_def flag_def no_options_def new_world_def
        base64_decode_examples utf8_examples)
  from emails_respect_flags [of "fixed_mailbox [plain_message]" ?opts 0 "[?email]" new_world 1,
      THEN conjunct2, THEN conjunct1] got
  have "flags_respected ?opts ?email" by simp
  with got show ?thesis by (simp add: plain_email_def)
qed

subsection \<open>Default options\<close>

lemma loop_undefined_interval:
  assumes "o_wait_time_sec opts = None" and "\<forall>n. fetch client opts n = Inr []"
  shows "\<exists>w'. check_inbox_loop fuel client opts d w = (None, w')
           \<and> sleeps w' = sleeps w @ replicate fuel NaN \<and> calls w' = calls w + fuel"
proof (induction fuel arbitrary: d w)
  case 0
  then show ?case by simp
next
  case (Suc fuel)
  let ?w2 = "sleep (js_mul (to_number (o_wait_time_sec opts)) (Num 1000))
      (console_log (waiting_message opts) (w\<lparr>calls := Suc (calls w)\<rparr>))"
  have nan: "js_add d (to_number (o_wait_time_sec opts)) = NaN"
    using assms(1) by (simp add: to_number_def js_add_NaN)
  have step: "check_inbox_loop (Suc fuel) client opts d w = check_inbox_loop fuel client opts NaN ?w2"
    using assms(2) by (simp add: get_recent_email_def nan)
  from Suc.IH [of NaN ?w2] obtain w' where
    "check_inbox_loop fuel client opts NaN ?w2 = (None, w')"
    "sleeps w' = sleeps ?w2 @ replicate fuel NaN" "calls w' = calls ?w2 + fuel"
    by blast
  then show ?case
    using step assms(1) by (simp add: to_number_def replicate_append_same)
qed

text \<open>
  Claim C9.  The default options (interval 30 seconds, maximum 30 seconds, label
  \<^verbatim>\<open>INBOX\<close>) are used when the options argument is omitted, and only then: an options object
  is used as it is, nothing is filled in.  With the defaults and a mailbox that stays empty,
  the first search exhausts the budget and the call returns \<^verbatim>\<open>null\<close> without sleeping.  With
  an options object that sets no interval and a mailbox that stays empty, the elapsed time
  is \<^verbatim>\<open>NaN\<close>, no comparison with the maximum succeeds, and the call has not ended after any
  number of searches, each followed by a \<^verbatim>\<open>setTimeout\<close> of \<^verbatim>\<open>NaN\<close> milliseconds.
\<close>

theorem check_inbox_defaults_only_when_omitted:
  "check_inbox client Omitted fuel w = check_inbox_inner client default_options fuel w
   \<and> o_wait_time_sec default_options = Some 30 \<and> o_max_wait_time_sec default_options = Some 30
   \<and> o_label default_options = Some ''INBOX''
   \<and> check_inbox client (Obj opts) fuel w = check_inbox_inner client opts fuel w
   \<and> ((\<forall>n. fetch client default_options n = Inr []) \<and> 0 < fuel \<longrightarrow>
        fst (check_inbox client Omitted fuel w) = Some (Returned None)
        \<and> sleeps (snd (check_inbox client Omitted fuel w)) = sleeps w)
   \<and> (o_wait_time_sec opts = None \<and> (\<forall>n. fetch client opts n = Inr []) \<longrightarrow>
        fst (check_inbox client (Obj opts) fuel w) = None
        \<and> sleeps (snd (check_inbox client (Obj opts) fuel w)) = sleeps w @ replicate fuel NaN)"
proof (intro conjI impI)
  show "check_inbox client Omitted fuel w = check_inbox_inner client default_options fuel w"
    by (simp add: check_inbox_def)
  show "o_wait_time_sec default_options = Some 30" "o_max_wait_time_sec default_options = Some 30"
    "o_label default_options = Some ''INBOX''"
    by (simp_all add: default_options_def)
  show "check_inbox client (Obj opts) fuel w = check_inbox_inner client opts fuel w"
    by (simp add: check_inbox_def)
next
  assume a: "(\<forall>n. fetch client default_options n = Inr []) \<and> 0 < fuel"
  then obtain f where f: "fuel = Suc f" by (cases fuel) auto
  have "\<exists>w'. check_inbox_loop fuel client default_options (Num 0)
           (console_log (checking_message default_options) w) = (Some (Returned None), w')
         \<and> sleeps w' = sleeps (console_log (checking_message default_options) w)
              @ replicate 0 (Num (30 * 1000))
         \<and> calls w' = calls (console_log (checking_message default_options) w) + 0 + 1"
  proof (rule loop_timed_out [where i = 30 and m = 30])
    show "o_wait_time_sec default_options = Some 30" "o_max_wait_time_sec default_options = Some 30"
      by (simp_all add: default_options_def)
    show "\<forall>j\<le>0. fetch client default_options
        (calls (console_log (checking_message default_options) w) + j) = Inr []"
      using a by simp
    show "(0::int) \<le> 30" "(30::int) * 1000 \<le> 9007199254740992"
      "\<bar>30::int\<bar> \<le> 9007199254740992" "(30::int) + 30 \<le> 9007199254740992"
      "(0::int) \<le> 0" "(0::int) + 30 \<le> 9007199254740992"
      by simp_all
    show "\<forall>j<0. 0 + (int j + 1) * 30 < (30::int)" by simp
    show "(30::int) \<le> 0 + (int 0 + 1) * 30" by simp
    show "0 < fuel" using a by simp
  qed
  then show "fst (check_inbox client Omitted fuel w) = Some (Returned None)"
    "sleeps (snd (check_inbox client Omitted fuel w)) = sleeps w"
    by (auto simp: check_inbox_def check_inbox_inner_fst check_inbox_inner_sleeps)
next
  assume a: "o_wait_time_sec opts = None \<and> (\<forall>n. fetch client opts n = Inr [])"
  then obtain w' where "check_inbox_loop fuel client opts (Num 0)
      (console_log (checking_message opts) w) = (None, w')"
    "sleeps w' = sleeps (console_log (checking_message opts) w) @ replicate fuel NaN"
    using loop_undefined_interval [of opts client fuel "Num 0"] by blast
  then show "fst (check_inbox client (Obj opts) fuel w) = None"
    "sleeps (snd (check_inbox client (Obj opts) fuel w)) = sleeps w @ replicate fuel NaN"
    by (simp_all add: check_inbox_def check_inbox_inner_fst check_inbox_inner_sleeps)
qed

theorem check_inbox_defaults_only_when_omitted_witness:
  "fst (check_inbox (fixed_mailbox []) Omitted 3 new_world) = Some (Returned None)
   \<and> sleeps (snd (check_inbox (fixed_mailbox []) Omitted 3 new_world)) = []
   \<and> fst (check_inbox (fixed_mailbox []) (Obj (no_options\<lparr>o_from := Some ''alice@example.com''\<rparr>))
          3 new_world) = None
   \<and> sleeps (snd (check_inbox (fixed_mailbox [])
          (Obj (no_options\<lparr>o_from := Some ''alice@example.com''\<rparr>)) 3 new_world))
       = [NaN, NaN, NaN]"
proof -
  have empty: "\<forall>n. fetch (fixed_mailbox []) opts n = Inr []" for opts
    by (simp add: fetch_def fixed_mailbox_def mock_client_def)
  have undefined_interval: "o_wait_time_sec (no_options\<lparr>o_from := Some ''alice@example.com''\<rparr>) = None"
    by (simp add: no_options_def)
  note claim = check_inbox_defaults_only_when_omitted
    [of "fixed_mailbox []" 3 new_world "no_options\<lparr>o_from := Some ''alice@example.com''\<rparr>"]
  have "(0::nat) < 3" by simp
  with claim empty [of default_options]
  have "fst (check_inbox (fixed_mailbox []) Omitted 3 new_world) = Some (Returned None)
      \<and> sleeps (snd (check_inbox (fixed_mailbox []) Omitted 3 new_world)) = sleeps new_world"
    by blast
  moreover from claim empty [of "no_options\<lparr>o_from := Some ''alice@example.com''\<rparr>"]
    undefined_interval
  have "fst (check_inbox (fixed_mailbox []) (Obj (no_options\<lparr>o_from := Some ''alice@example.com''\<rparr>))
          3 new_world) = None
      \<and> sleeps (snd (check_inbox (fixed_mailbox [])
          (Obj (no_options\<lparr>o_from := Some ''alice@example.com''\<rparr>)) 3 new_world))
       = sleeps new_world @ replicate 3 NaN"
    by blast
  ultimately show ?thesis
    by (simp add: new_world_def eval_nat_numeral)
qed

subsection \<open>Messages without parts\<close>

lemma decode_all_each:
  "decode_all client opts gs acc = Inr emails \<Longrightarrow> \<forall>g\<in>set gs. \<not> isl (decode_email client opts g)"
  by (induction gs arbitrary: acc) (auto split: sum.splits)

text \<open>
  Claim C10.  With \<open>include_body\<close> set, a raw message whose top-level body has size 0 and
  whose payload has no parts cannot be decoded: copying the absent parts throws a
  \<^verbatim>\<open>TypeError\<close>.  A search whose answer contains such a message fails as a whole, so
  \<open>get_messages\<close> returns \<^verbatim>\<open>undefined\<close>, \<open>check_inbox\<close> and \<open>reply_to_email\<close> throw, and no
  email is returned for it.
\<close>

theorem decode_fails_without_parts:
  assumes "flag (o_include_body opts)" and "b_size (pl_body (g_payload g)) = 0"
    and "pl_parts (g_payload g) = None"
  shows "decode_email client opts g = Inl (TypeError ''gmail_email.payload.parts is not iterable'')
       \<and> (api_get_recent_email client (calls w) (init_query opts) (o_label opts) = Inr gs
            \<and> g \<in> set gs \<longrightarrow>
              isl (fetch client opts (calls w))
            \<and> fst (get_messages client opts w) = Returned None
            \<and> (0 < fuel \<longrightarrow> (\<exists>err. fst (check_inbox client (Obj opts) fuel w) = Some (Threw err)))
            \<and> isl (fst (reply_to_email client replyContent opts w)))"
proof (intro conjI impI)
  show fails: "decode_email client opts g
      = Inl (TypeError ''gmail_email.payload.parts is not iterable'')"
    using assms by (simp add: decode_email_def decode_body_def)
  assume a: "api_get_recent_email client (calls w) (init_query opts) (o_label opts) = Inr gs
      \<and> g \<in> set gs"
  show "isl (fetch client opts (calls w))"
  proof (rule ccontr)
    assume "\<not> isl (fetch client opts (calls w))"
    then obtain emails where "fetch client opts (calls w) = Inr emails"
      by (cases "fetch client opts (calls w)") auto
    with a have "decode_all client opts gs [] = Inr emails"
      by (auto simp: fetch_def split: option.splits)
    from decode_all_each [OF this] a fails show False by auto
  qed
  then obtain err where err: "fetch client opts (calls w) = Inl err"
    by (cases "fetch client opts (calls w)") auto
  show "fst (get_messages client opts w) = Returned None"
    using err by (simp add: get_messages_def get_recent_email_def)
  show "isl (fst (reply_to_email client replyContent opts w))"
    using err by (simp add: reply_to_email_def get_recent_email_def)
  assume "0 < fuel"
  then obtain n where "fuel = Suc n" by (cases fuel) auto
  then have "fst (check_inbox client (Obj opts) fuel w) = Some (Threw err)"
    using err loop_first_error [of client opts "console_log (checking_message opts) w" err n "Num 0"]
    by (simp add: check_inbox_def check_inbox_inner_fst)
  then show "\<exists>err. fst (check_inbox client (Obj opts) fuel w) = Some (Threw err)"
    by blast
qed

theorem decode_fails_without_parts_witness:
  "fst (get_messages (fixed_mailbox [plain_message, empty_body_message])
          (no_options\<lparr>o_include_body := Some True\<rparr>) new_world) = Returned None
   \<and> (\<exists>err. fst (check_inbox (fixed_mailbox [plain_message, empty_body_message])
          (Obj (no_options\<lparr>o_include_body := Some True\<rparr>)) 1 new_world) = Some (Threw err))
   \<and> isl (fst (reply_to_email (fixed_mailbox [plain_message, empty_body_message]) ''Thanks''
          (no_options\<lparr>o_include_body := Some True\<rparr>) new_world))"
proof -
  let ?opts = "no_options\<lparr>o_include_body := Some True\<rparr>"
  let ?client = "fixed_mailbox [plain_message, empty_body_message]"
  have requested: "flag (o_include_body ?opts)"
    by (simp add: flag_def)
  have empty: "b_size (pl_body (g_payload empty_body_message)) = 0"
    "pl_parts (g_payload empty_body_message) = None"
    by (simp_all add: empty_body_message_def)
  have answer: "api_get_recent_email ?client (calls new_world) (init_query ?opts) (o_label ?opts)
      = Inr [plain_message, empty_body_message]"
    by (simp add: fixed_mailbox_def mock_client_def)
  have "(0::nat) < 1" "empty_body_message \<in> set [plain_message, empty_body_message]"
    by simp_all
  with decode_fails_without_parts [OF requested empty, of ?client new_world
      "[plain_message, empty_body_message]" 1 "''Thanks''"] answer
  show ?thesis by blast
qed

end
